theory Spec2Isabelle
  imports Complex_Main
begin

section \<open>Data model\<close>

text \<open>
  Exceptions of the Python source are values. The string of \<open>UnboundLocalError\<close> is the
  name of the local variable that was read before any assignment; \<open>ExternalError\<close> stands
  for whatever an imported library call raises.
\<close>

datatype error =
    UnboundLocalError string
  | IndexError
  | RuntimeError string
  | ZeroDivisionError
  | OverflowError
  | NotImplementedError
  | ExternalError string

text \<open>
  A two-dimensional integer tensor (\<open>input_ids\<close>, \<open>position_ids\<close>) of shape
  \<open>(dim0, length cols)\<close>: \<open>dim0\<close> is the batch size \<open>shape[0]\<close>, and \<open>cols\<close> lists the
  \<open>shape[1]\<close> token positions, each one holding the \<open>dim0\<close> entries of that position.
\<close>

record tensor2 =
  dim0 :: nat
  cols :: "int list list"

definition shape1 :: "tensor2 \<Rightarrow> nat" where
  "shape1 t = length (cols t)"

definition well_shaped :: "tensor2 \<Rightarrow> bool" where
  "well_shaped t = list_all (\<lambda>c. length c = dim0 t) (cols t)"

text \<open>\<open>t[:, lo:hi]\<close> for \<open>0 \<le> lo \<le> hi\<close>: slices clamp to the shape and never raise.\<close>

definition col_slice :: "tensor2 \<Rightarrow> nat \<Rightarrow> nat \<Rightarrow> tensor2" where
  "col_slice t lo hi = t\<lparr>cols := take (hi - lo) (drop lo (cols t))\<rparr>"

text \<open>
  \<open>t[:, -1].unsqueeze(-1)\<close>: integer indexing of the last position raises IndexError on a
  tensor with no position; \<open>unsqueeze\<close> makes the selected position a width-1 tensor again.
\<close>

definition last_col_unsqueezed :: "tensor2 \<Rightarrow> error + tensor2" where
  "last_col_unsqueezed t =
     (if cols t = [] then Inl IndexError else Inr (t\<lparr>cols := [last (cols t)]\<rparr>))"

text \<open>
  \<open>np.full_like(t, v)\<close> on the \<open>int64\<close> array of token ids: the shape of \<open>t\<close> with every
  entry \<open>v\<close>, or OverflowError when the Python integer \<open>v\<close> is not an \<open>int64\<close> value.
\<close>

definition in_int64 :: "int \<Rightarrow> bool" where
  "in_int64 v = (- (2 ^ 63) \<le> v \<and> v < 2 ^ 63)"

definition filled :: "tensor2 \<Rightarrow> int \<Rightarrow> tensor2" where
  "filled t v = t\<lparr>cols := map (map (\<lambda>_. v)) (cols t)\<rparr>"

definition full_like :: "tensor2 \<Rightarrow> int \<Rightarrow> error + tensor2" where
  "full_like t v = (if in_int64 v then Inr (filled t v) else Inl OverflowError)"

text \<open>
  The attention cache is a Python sequence of per-layer entries (the source indexes it as
  \<open>past_key_values[0][0]\<close>); the entries, like logits and the diagnostics, are opaque
  arrays of type \<open>'v\<close>. An optional cache is \<open>None\<close> or a sequence, and \<open>if past:\<close> tests
  Python truthiness: \<open>None\<close> and the empty sequence are false.
\<close>

type_synonym 'v cache = "'v list"

definition truthy :: "'v cache option \<Rightarrow> bool" where
  "truthy past = (case past of None \<Rightarrow> False | Some c \<Rightarrow> c \<noteq> [])"

text \<open>The dataclass \<open>InferenceFuncOutput\<close>; the three last fields default to \<open>None\<close>.\<close>

record 'v InferenceFuncOutput =
  logits :: 'v
  past_key_values :: "'v cache option"
  hidden_states :: "'v option"
  attentions :: "'v option"

text \<open>The keyword arguments every inference function takes.\<close>

record flags =
  output_attentions :: "bool option"
  output_hidden_states :: "bool option"

text \<open>
  An inference function is a Python callable with side effects (the device computation, and
  for the distributed backend the closure cell \<open>step_ct\<close>): it takes the state \<open>'s\<close> and
  returns the new one together with its result or the exception it raised.
\<close>

type_synonym ('s, 'v) inference_func =
  "'s \<Rightarrow> tensor2 \<Rightarrow> 'v cache option \<Rightarrow> flags \<Rightarrow> (error + 'v InferenceFuncOutput) \<times> 's"

section \<open>The generation adapter \<open>WrappedInferenceFunc\<close>\<close>

text \<open>\<open>forward\<close> is not implemented.\<close>

definition forward :: "'a \<Rightarrow> error + 'b" where
  "forward attention_mask = Inl NotImplementedError"

text \<open>The dictionary \<open>prepare_inputs_for_generation\<close> returns.\<close>

record 'v prepared_inputs =
  prep_input_ids :: tensor2
  prep_past_key_values :: "'v cache option"

definition prepare_inputs_for_generation ::
  "tensor2 \<Rightarrow> 'v cache option \<Rightarrow> error + 'v prepared_inputs" where
  "prepare_inputs_for_generation input_ids past =
     (if truthy past then
        (case last_col_unsqueezed input_ids of
           Inl e \<Rightarrow> Inl e
         | Inr ids \<Rightarrow> Inr \<lparr>prep_input_ids = ids, prep_past_key_values = past\<rparr>)
      else Inr \<lparr>prep_input_ids = input_ids, prep_past_key_values = past\<rparr>)"

text \<open>
  The body of \<open>__call__\<close>: \<open>for i in range(input_ids.shape[1])\<close> over the list of indices,
  carrying the state, the rebound \<open>past_key_values\<close> and the local \<open>ret\<close>, which is unbound
  (\<open>None\<close> here) until the first iteration has assigned it. An exception of the inference
  function leaves the loop at once.
\<close>

fun call_loop ::
  "('s, 'v) inference_func \<Rightarrow> tensor2 \<Rightarrow> flags \<Rightarrow> nat list \<Rightarrow> 's \<Rightarrow> 'v cache option \<Rightarrow>
   'v InferenceFuncOutput option \<Rightarrow> (error + 'v InferenceFuncOutput option) \<times> 's" where
  "call_loop f input_ids fl [] s past ret = (Inr ret, s)"
| "call_loop f input_ids fl (i # idxs) s past ret =
     (case f s (col_slice input_ids i (i + 1)) past fl of
        (Inl e, s') \<Rightarrow> (Inl e, s')
      | (Inr r, s') \<Rightarrow> call_loop f input_ids fl idxs s' (past_key_values r) (Some r))"

text \<open>
  \<open>__call__(self, input_ids, past_key_values, output_attentions, output_hidden_states,
  return_dict)\<close> with \<open>self.inference_func = f\<close>; \<open>return ret\<close> with \<open>ret\<close> unbound raises
  UnboundLocalError. \<open>return_dict\<close> is accepted and never read.
\<close>

definition wrapped_call ::
  "('s, 'v) inference_func \<Rightarrow> 's \<Rightarrow> tensor2 \<Rightarrow> 'v cache option \<Rightarrow> bool option \<Rightarrow> bool option \<Rightarrow>
   bool option \<Rightarrow> (error + 'v InferenceFuncOutput) \<times> 's" where
  "wrapped_call f s input_ids past out_attn out_hidden return_dict =
     (case call_loop f input_ids
             \<lparr>output_attentions = out_attn, output_hidden_states = out_hidden\<rparr>
             [0 ..< shape1 input_ids] s past None of
        (Inl e, s') \<Rightarrow> (Inl e, s')
      | (Inr None, s') \<Rightarrow> (Inl (UnboundLocalError ''ret''), s')
      | (Inr (Some r), s') \<Rightarrow> (Inr r, s'))"

section \<open>The distributed backend\<close>

text \<open>
  The executable is an external collaborator: a callable taking the parameters and the
  dictionary \<open>{input_ids, position_ids, cache}\<close>, running on the device cluster (whose
  state is \<open>'w\<close>) and returning \<open>logits\<close>, \<open>attention_cache\<close>, \<open>hidden_states\<close> and
  \<open>attentions\<close>, or raising. The autoregressive executable always returns a cache, so
  \<open>attention_cache\<close> is a cache and never \<open>None\<close>.
\<close>

record 'v exe_inputs =
  in_input_ids :: tensor2
  in_position_ids :: tensor2
  in_cache :: "'v cache"

record 'v exe_output =
  out_logits :: 'v
  attention_cache :: "'v cache"
  out_hidden_states :: "'v option"
  out_attentions :: "'v option"

type_synonym ('exe, 'p, 'v, 'w) executable_run =
  "'exe \<Rightarrow> 'w \<Rightarrow> 'p \<Rightarrow> 'v exe_inputs \<Rightarrow> (error + 'v exe_output) \<times> 'w"

text \<open>
  The configuration class of the OPT model is declared outside the files at hand; the only
  attribute the code below reads is \<open>pad\<close>, so the configuration is a record with that
  field and an extension \<open>'z\<close> for all the others.
\<close>

record opt_config =
  pad :: int

text \<open>
  The closure \<open>inference_func\<close> of the \<open>alpa/opt\<close> branch: the variables of \<open>get_model\<close> it
  captures, among them the cell of the \<open>nonlocal step_ct\<close>, which every call rewrites.
\<close>

record ('exe, 'p, 'v, 'z) alpa_closure =
  cl_executable :: 'exe
  cl_params :: 'p
  cl_init_cache :: "'v cache"
  cl_config :: "'z opt_config_scheme"
  cl_device :: string
  step_ct :: int

text \<open>
  \<open>torch.from_numpy(np.array(output.logits)).to(device)\<close> moves the logits to the device
  named by the captured \<open>device\<close>; it raises when that device cannot be used. It is a
  parameter: the logits and the device name in, the tensor or the exception out.
\<close>

type_synonym 'v to_device = "'v \<Rightarrow> string \<Rightarrow> error + 'v"

text \<open>
  The body of that closure, statement by statement. \<open>input_ids.cpu().numpy()\<close> keeps the
  values. The flags are accepted and not passed on. Three statements can raise after the
  reset of \<open>step_ct\<close> and before \<open>step_ct += 1\<close>: \<open>np.full_like\<close> (before the executable is
  called), the executable, and the transfer of the logits (after the executable has run).
\<close>

definition alpa_inference_func ::
  "('exe, 'p, 'v, 'w) executable_run \<Rightarrow> 'v to_device \<Rightarrow>
   (('exe, 'p, 'v, 'z) alpa_closure \<times> 'w, 'v) inference_func" where
  "alpa_inference_func run to_device = (\<lambda>(cl, w) input_ids past_key_values fl.
     let (past, ct) = (case past_key_values of
                         None \<Rightarrow> (cl_init_cache cl, 0)
                       | Some c \<Rightarrow> (c, step_ct cl));
         input_ids_step = input_ids
     in case full_like input_ids_step (ct + pad (cl_config cl) + 1) of
          Inl e \<Rightarrow> (Inl e, (cl\<lparr>step_ct := ct\<rparr>, w))
        | Inr position_ids_step \<Rightarrow>
     (case run (cl_executable cl) w (cl_params cl)
               \<lparr>in_input_ids = input_ids_step, in_position_ids = position_ids_step,
                in_cache = past\<rparr> of
          (Inl e, w') \<Rightarrow> (Inl e, (cl\<lparr>step_ct := ct\<rparr>, w'))
        | (Inr output, w') \<Rightarrow>
     (case to_device (out_logits output) (cl_device cl) of
          Inl e \<Rightarrow> (Inl e, (cl\<lparr>step_ct := ct\<rparr>, w'))
        | Inr logits_step \<Rightarrow>
            (Inr \<lparr>logits = logits_step,
                  past_key_values = Some (attention_cache output),
                  hidden_states = out_hidden_states output,
                  attentions = out_attentions output\<rparr>,
             (cl\<lparr>step_ct := ct + 1\<rparr>, w')))))"

section \<open>The single-device backends\<close>

text \<open>
  A call of a pretrained model: the keyword arguments and the two attributes of the result
  the code reads. The attention mask is \<open>None\<close> or \<open>torch.ones(shape)\<close>, given by its shape.
\<close>

record 'v raw_inputs =
  raw_input_ids :: tensor2
  raw_attention_mask :: "(nat \<times> nat) option"
  raw_past :: "'v cache option"
  raw_flags :: flags

record 'v raw_output =
  raw_logits :: 'v
  raw_past_key_values :: "'v cache option"

type_synonym ('m, 'v, 'w) raw_forward =
  "'m \<Rightarrow> 'w \<Rightarrow> 'v raw_inputs \<Rightarrow> (error + 'v raw_output) \<times> 'w"

definition gpt_inference_func :: "('m, 'v, 'w) raw_forward \<Rightarrow> 'm \<Rightarrow> ('w, 'v) inference_func" where
  "gpt_inference_func fwd raw_model w input_ids past fl =
     (case fwd raw_model w \<lparr>raw_input_ids = input_ids, raw_attention_mask = None,
                             raw_past = past, raw_flags = fl\<rparr> of
        (Inl e, w') \<Rightarrow> (Inl e, w')
      | (Inr out, w') \<Rightarrow>
          (Inr \<lparr>logits = raw_logits out, past_key_values = raw_past_key_values out,
                hidden_states = None, attentions = None\<rparr>, w'))"

text \<open>
  \<open>past_key_values[0][0].shape[2]\<close>: the first entry of the cache, or IndexError on an empty
  one; what \<open>entry[0].shape[2]\<close> is for an entry is the parameter \<open>entry_length\<close>.
\<close>

definition past_length :: "('v \<Rightarrow> error + nat) \<Rightarrow> 'v cache \<Rightarrow> error + nat" where
  "past_length entry_length c = (case c of [] \<Rightarrow> Inl IndexError | e # _ \<Rightarrow> entry_length e)"

definition opt_inference_func ::
  "('m, 'v, 'w) raw_forward \<Rightarrow> ('v \<Rightarrow> error + nat) \<Rightarrow> 'm \<Rightarrow> ('w, 'v) inference_func" where
  "opt_inference_func fwd entry_length raw_model w input_ids past fl =
     (case (case past of
              None \<Rightarrow> Inr None
            | Some c \<Rightarrow> (case past_length entry_length c of
                          Inl e \<Rightarrow> Inl e
                        | Inr n \<Rightarrow> Inr (Some (dim0 input_ids, n + 1)))) of
        Inl e \<Rightarrow> (Inl e, w)
      | Inr attention_mask \<Rightarrow>
          (case fwd raw_model w \<lparr>raw_input_ids = input_ids, raw_attention_mask = attention_mask,
                                  raw_past = past, raw_flags = fl\<rparr> of
             (Inl e, w') \<Rightarrow> (Inl e, w')
           | (Inr out, w') \<Rightarrow>
               (Inr \<lparr>logits = raw_logits out, past_key_values = raw_past_key_values out,
                     hidden_states = None, attentions = None\<rparr>, w')))"

section \<open>Strings\<close>

text \<open>Python's \<open>sub in s\<close>, \<open>s.split(sep)\<close> for a one-character separator and \<open>s.upper()\<close>
  (model names are ASCII).\<close>

fun str_contains :: "string \<Rightarrow> string \<Rightarrow> bool" where
  "str_contains sub [] = (sub = [])"
| "str_contains sub (c # cs) = (take (length sub) (c # cs) = sub \<or> str_contains sub cs)"

fun split_on :: "char \<Rightarrow> string \<Rightarrow> string list" where
  "split_on sep [] = [[]]"
| "split_on sep (c # cs) =
     (if c = sep then [] # split_on sep cs
      else (case split_on sep cs of
              [] \<Rightarrow> [[c]]
            | p # ps \<Rightarrow> (c # p) # ps))"

definition upper_char :: "char \<Rightarrow> char" where
  "upper_char c =
     (case map_of (zip ''abcdefghijklmnopqrstuvwxyz'' ''ABCDEFGHIJKLMNOPQRSTUVWXYZ'') c of
        None \<Rightarrow> c
      | Some u \<Rightarrow> u)"

definition upper :: "string \<Rightarrow> string" where
  "upper s = map upper_char s"

text \<open>\<open>xs[1]\<close> on a Python list.\<close>

definition index1 :: "'a list \<Rightarrow> error + 'a" where
  "index1 xs = (case xs of _ # x # _ \<Rightarrow> Inr x | _ \<Rightarrow> Inl IndexError)"

section \<open>\<open>get_model\<close>\<close>

text \<open>
  The dataclass \<open>InferenceFuncConfig\<close> as the list of its fields with their default values,
  in declaration order; \<open>setattr\<close> overwrites a field.
\<close>

datatype pyval = PyNone | PyBool bool | PyInt int | PyFloat real | PyList "pyval list"

type_synonym InferenceFuncConfig = "(string \<times> pyval) list"

definition InferenceFuncConfig_defaults :: InferenceFuncConfig where
  "InferenceFuncConfig_defaults =
     [(''bos_token_id'', PyInt 0),
      (''num_beams'', PyInt 1),
      (''num_beam_groups'', PyInt 1),
      (''length_penalty'', PyFloat 1),
      (''repetition_penalty'', PyFloat 1),
      (''early_stopping'', PyBool False),
      (''num_return_sequences'', PyInt 1),
      (''pad_token_id'', PyInt 1),
      (''eos_token_id'', PyInt 2),
      (''output_scores'', PyBool False),
      (''output_attentions'', PyBool False),
      (''output_hidden_states'', PyBool False),
      (''return_dict_in_generate'', PyBool False),
      (''is_encoder_decoder'', PyBool False),
      (''min_length'', PyInt 0),
      (''no_repeat_ngram_size'', PyInt 0),
      (''encoder_no_repeat_ngram_size'', PyInt 0),
      (''bad_words_ids'', PyNone),
      (''diversity_penalty'', PyFloat 0),
      (''forced_bos_token_id'', PyNone),
      (''forced_eos_token_id'', PyNone),
      (''remove_invalid_values'', PyBool False),
      (''exponential_decay_length_penalty'', PyNone),
      (''top_k'', PyInt 50),
      (''top_p'', PyFloat 1),
      (''typical_p'', PyFloat 1),
      (''temperature'', PyFloat 1)]"

definition setattr :: "InferenceFuncConfig \<Rightarrow> string \<Rightarrow> pyval \<Rightarrow> InferenceFuncConfig" where
  "setattr cfg key v = map (\<lambda>(k, old). if k = key then (k, v) else (k, old)) cfg"

text \<open>
  \<open>for key in ...keys(): setattr(inference_func_config, key, getattr(raw_model.config, key))\<close>;
  \<open>getattr\<close> on the configuration of a pretrained model is the parameter \<open>getattr_config\<close>.
\<close>

fun copy_fields ::
  "('hc \<Rightarrow> string \<Rightarrow> error + pyval) \<Rightarrow> 'hc \<Rightarrow> string list \<Rightarrow> InferenceFuncConfig \<Rightarrow>
   error + InferenceFuncConfig" where
  "copy_fields getattr_config hc [] cfg = Inr cfg"
| "copy_fields getattr_config hc (key # keys) cfg =
     (case getattr_config hc key of
        Inl e \<Rightarrow> Inl e
      | Inr v \<Rightarrow> copy_fields getattr_config hc keys (setattr cfg key v))"

datatype torch_dtype = Float16 | Float32

text \<open>
  What \<open>get_model\<close> calls and the files at hand do not define: the pretrained-model
  loaders, \<open>alpa.init\<close> and the cluster, and \<open>get_config\<close>, \<open>get_pipeshard_executable\<close>,
  \<open>load_params_dis_array\<close>, \<open>init_cache_dis_array\<close> of \<open>opt_model\<close>. Each is a parameter
  returning its result or the exception it raises.
\<close>

record ('m, 'hc, 'exe, 'pa, 'p, 'v, 'z) env =
  gpt2_from_pretrained :: "string \<Rightarrow> error + 'm"
  opt_from_pretrained :: "string \<Rightarrow> torch_dtype \<Rightarrow> error + 'm"
  model_to :: "'m \<Rightarrow> string \<Rightarrow> error + 'm"
  raw_config :: "'m \<Rightarrow> 'hc"
  getattr_config :: "'hc \<Rightarrow> string \<Rightarrow> error + pyval"
  alpa_init :: "error + unit"
  num_hosts :: nat
  get_config :: "string \<Rightarrow> nat \<Rightarrow> error + 'z opt_config_scheme"
  get_pipeshard_executable ::
    "'z opt_config_scheme \<Rightarrow> bool \<Rightarrow> bool \<Rightarrow> bool \<Rightarrow> error + ('exe \<times> 'pa)"
  load_params_dis_array ::
    "string \<Rightarrow> 'exe \<Rightarrow> 'pa \<Rightarrow> 'z opt_config_scheme \<Rightarrow> bool \<Rightarrow> error + 'p"
  init_cache_dis_array :: "'exe \<Rightarrow> 'z opt_config_scheme \<Rightarrow> nat \<Rightarrow> bool \<Rightarrow> error + 'v cache"
  executable_sync :: "'exe \<Rightarrow> error + unit"

text \<open>
  The three closures \<open>get_model\<close> binds to \<open>inference_func\<close>, each with the variables it
  captures; the two kinds of object bound to \<open>inference_func_config\<close> and \<open>model_config\<close>.
\<close>

datatype ('m, 'exe, 'p, 'v, 'z) closure =
    GptFunc 'm
  | OptFunc 'm string
  | AlpaFunc "('exe, 'p, 'v, 'z) alpa_closure"

datatype 'hc generation_config = ModelConfig 'hc | FuncConfig InferenceFuncConfig

datatype ('hc, 'z) model_config = PretrainedConfig 'hc | OPTConfig "'z opt_config_scheme"

text \<open>
  The local variables of \<open>get_model\<close> that its last line reads; each is bound in some
  branches only, and \<open>None\<close> is an unbound local.
\<close>

record ('m, 'hc, 'exe, 'p, 'v, 'z) locals =
  l_inference_func :: "('m, 'exe, 'p, 'v, 'z) closure option"
  l_inference_func_config :: "'hc generation_config option"
  l_executable :: "'exe option"
  l_model_config :: "('hc, 'z) model_config option"

definition gpt_branch ::
  "('m, 'hc, 'exe, 'pa, 'p, 'v, 'z) env \<Rightarrow> string \<Rightarrow> string \<Rightarrow>
   error + ('m, 'hc, 'exe, 'p, 'v, 'z) locals" where
  "gpt_branch E model_name device =
     (case gpt2_from_pretrained E model_name of
        Inl e \<Rightarrow> Inl e
      | Inr loaded \<Rightarrow>
     (case model_to E loaded device of
        Inl e \<Rightarrow> Inl e
      | Inr raw_model \<Rightarrow>
          Inr \<lparr>l_inference_func = Some (GptFunc raw_model),
               l_inference_func_config = Some (ModelConfig (raw_config E raw_model)),
               l_executable = None,
               l_model_config = Some (PretrainedConfig (raw_config E raw_model))\<rparr>))"

definition facebook_opt_branch ::
  "('m, 'hc, 'exe, 'pa, 'p, 'v, 'z) env \<Rightarrow> string \<Rightarrow> string \<Rightarrow>
   error + ('m, 'hc, 'exe, 'p, 'v, 'z) locals" where
  "facebook_opt_branch E model_name device =
     (case opt_from_pretrained E model_name
             (if str_contains ''cuda'' device then Float16 else Float32) of
        Inl e \<Rightarrow> Inl e
      | Inr loaded \<Rightarrow>
     (case model_to E loaded device of
        Inl e \<Rightarrow> Inl e
      | Inr raw_model \<Rightarrow>
     (case copy_fields (getattr_config E) (raw_config E raw_model)
             (map fst InferenceFuncConfig_defaults) InferenceFuncConfig_defaults of
        Inl e \<Rightarrow> Inl e
      | Inr inference_func_config \<Rightarrow>
          Inr \<lparr>l_inference_func = Some (OptFunc raw_model device),
               l_inference_func_config = Some (FuncConfig inference_func_config),
               l_executable = None,
               l_model_config = Some (PretrainedConfig (raw_config E raw_model))\<rparr>)))"

definition alpa_opt_branch ::
  "('m, 'hc, 'exe, 'pa, 'p, 'v, 'z) env \<Rightarrow> string \<Rightarrow> string \<Rightarrow> bool \<Rightarrow> string \<Rightarrow> bool \<Rightarrow> bool \<Rightarrow>
   error + ('m, 'hc, 'exe, 'p, 'v, 'z) locals" where
  "alpa_opt_branch E model_name device dummy cluster support_output_attentions
      support_output_hidden_states =
     (case alpa_init E of
        Inl e \<Rightarrow> Inl e
      | Inr _ \<Rightarrow>
     (let num_pp_stages = max 2 (num_hosts E) in
      case index1 (split_on CHR ''-'' model_name) of
        Inl e \<Rightarrow> Inl e
      | Inr part \<Rightarrow>
     (let name = upper part in
      case get_config E name num_pp_stages of
        Inl e \<Rightarrow> Inl e
      | Inr config \<Rightarrow>
     (case (if cluster = ''aws'' then Inr (''/home/ubuntu/opt_weights/'' @ name @ ''_np'')
            else if cluster = ''mbzuai'' then Inr (''/dataset/opt_weights/'' @ name @ ''_np'')
            else Inl (RuntimeError ''Unrecognized cluster.'')) of
        Inl e \<Rightarrow> Inl e
      | Inr path \<Rightarrow>
     (case get_pipeshard_executable E config support_output_attentions
             support_output_hidden_states True of
        Inl e \<Rightarrow> Inl e
      | Inr (executable, params_aval) \<Rightarrow>
     (case load_params_dis_array E path executable params_aval config dummy of
        Inl e \<Rightarrow> Inl e
      | Inr params \<Rightarrow>
     (case init_cache_dis_array E executable config 1 dummy of
        Inl e \<Rightarrow> Inl e
      | Inr init_cache \<Rightarrow>
     (case executable_sync E executable of
        Inl e \<Rightarrow> Inl e
      | Inr _ \<Rightarrow>
          Inr \<lparr>l_inference_func =
                 Some (AlpaFunc \<lparr>cl_executable = executable, cl_params = params,
                                 cl_init_cache = init_cache, cl_config = config,
                                 cl_device = device, step_ct = 0\<rparr>),
               l_inference_func_config = Some (FuncConfig InferenceFuncConfig_defaults),
               l_executable = Some executable,
               l_model_config = Some (OPTConfig config)\<rparr>))))))))"

text \<open>The fields of a \<open>WrappedInferenceFunc\<close> object, as \<open>__init__\<close> sets them.\<close>

record ('m, 'hc, 'exe, 'p, 'v, 'z) WrappedInferenceFunc =
  inference_func :: "('m, 'exe, 'p, 'v, 'z) closure"
  config :: "'hc generation_config"
  main_input_name :: string
  executable :: 'exe
  model_config :: "('hc, 'z) model_config"

text \<open>
  The last line, \<open>return WrappedInferenceFunc(inference_func, inference_func_config,
  executable, model_config)\<close>, reads the four locals from left to right; the constructor
  sets \<open>main_input_name\<close>.
\<close>

definition construct_wrapper ::
  "('m, 'hc, 'exe, 'p, 'v, 'z) locals \<Rightarrow> error + ('m, 'hc, 'exe, 'p, 'v, 'z) WrappedInferenceFunc" where
  "construct_wrapper L =
     (case l_inference_func L of
        None \<Rightarrow> Inl (UnboundLocalError ''inference_func'')
      | Some f \<Rightarrow>
     (case l_inference_func_config L of
        None \<Rightarrow> Inl (UnboundLocalError ''inference_func_config'')
      | Some c \<Rightarrow>
     (case l_executable L of
        None \<Rightarrow> Inl (UnboundLocalError ''executable'')
      | Some x \<Rightarrow>
     (case l_model_config L of
        None \<Rightarrow> Inl (UnboundLocalError ''model_config'')
      | Some mc \<Rightarrow>
          Inr \<lparr>inference_func = f, config = c, main_input_name = ''input_ids'',
               executable = x, model_config = mc\<rparr>))))"

definition get_model ::
  "('m, 'hc, 'exe, 'pa, 'p, 'v, 'z) env \<Rightarrow> string \<Rightarrow> string \<Rightarrow> bool \<Rightarrow> string \<Rightarrow> bool \<Rightarrow> bool \<Rightarrow>
   error + ('m, 'hc, 'exe, 'p, 'v, 'z) WrappedInferenceFunc" where
  "get_model E model_name device dummy cluster support_output_attentions
      support_output_hidden_states =
     (case (if str_contains ''gpt'' model_name then gpt_branch E model_name device
            else if str_contains ''facebook/opt'' model_name then
              facebook_opt_branch E model_name device
            else if str_contains ''alpa/opt'' model_name then
              alpa_opt_branch E model_name device dummy cluster support_output_attentions
                support_output_hidden_states
            else Inr \<lparr>l_inference_func = None, l_inference_func_config = None,
                      l_executable = None, l_model_config = None\<rparr>) of
        Inl e \<Rightarrow> Inl e
      | Inr L \<Rightarrow> construct_wrapper L)"

text \<open>Calling \<open>self.inference_func\<close> of a wrapper: the closure with its cells is the state.\<close>

definition call_closure ::
  "('exe, 'p, 'v, 'w) executable_run \<Rightarrow> 'v to_device \<Rightarrow> ('m, 'v, 'w) raw_forward \<Rightarrow>
   ('v \<Rightarrow> error + nat) \<Rightarrow> (('m, 'exe, 'p, 'v, 'z) closure \<times> 'w, 'v) inference_func" where
  "call_closure run to_device fwd entry_length = (\<lambda>(c, w) input_ids past fl.
     case c of
       GptFunc raw_model \<Rightarrow>
         (case gpt_inference_func fwd raw_model w input_ids past fl of
            (r, w') \<Rightarrow> (r, (c, w')))
     | OptFunc raw_model device \<Rightarrow>
         (case opt_inference_func fwd entry_length raw_model w input_ids past fl of
            (r, w') \<Rightarrow> (r, (c, w')))
     | AlpaFunc cl \<Rightarrow>
         (case alpa_inference_func run to_device (cl, w) input_ids past fl of
            (r, (cl', w')) \<Rightarrow> (r, (AlpaFunc cl', w'))))"

section \<open>Benchmark arithmetic\<close>

text \<open>
  Floating-point numbers are real numbers here. \<open>np.prod(generated_ids.shape) / latency\<close>
  of the benchmark loop: a division by \<open>0.0\<close> gives no finite number (\<open>None\<close>).
\<close>

definition np_prod :: "nat list \<Rightarrow> nat" where
  "np_prod shape = prod_list shape"

definition speed :: "nat list \<Rightarrow> real \<Rightarrow> real option" where
  "speed generated_ids_shape latency =
     (if latency = 0 then None else Some (real (np_prod generated_ids_shape) / latency))"

section \<open>Observing calls\<close>

text \<open>
  To state which calls a run makes, the callee is wrapped so that it appends every call to
  a history kept beside its state: the arguments, the state before and after, the result.
\<close>

record ('s, 'v) call_event =
  ev_state :: 's
  ev_input_ids :: tensor2
  ev_past :: "'v cache option"
  ev_flags :: flags
  ev_result :: "error + 'v InferenceFuncOutput"
  ev_state_after :: 's

definition logged ::
  "('s, 'v) inference_func \<Rightarrow> ('s \<times> ('s, 'v) call_event list, 'v) inference_func" where
  "logged f = (\<lambda>(s, hist) x past fl.
     case f s x past fl of
       (r, s') \<Rightarrow> (r, (s', hist @ [\<lparr>ev_state = s, ev_input_ids = x, ev_past = past,
                                  ev_flags = fl, ev_result = r, ev_state_after = s'\<rparr>])))"

text \<open>
  The executable is wrapped in the same way: every call of it is appended to a history
  kept beside the state of the device cluster, with the dictionary it was given and what
  it returned or raised.
\<close>

record 'v exe_event =
  xe_inputs :: "'v exe_inputs"
  xe_result :: "error + 'v exe_output"

definition logged_run ::
  "('exe, 'p, 'v, 'w) executable_run \<Rightarrow> ('exe, 'p, 'v, 'w \<times> 'v exe_event list) executable_run" where
  "logged_run run = (\<lambda>exe (w, hist) params inputs.
     case run exe w params inputs of
       (r, w') \<Rightarrow> (r, (w', hist @ [\<lparr>xe_inputs = inputs, xe_result = r\<rparr>])))"

text \<open>
  A sequence of calls of an inference function, one after the other, whatever each of
  them returns or raises: the state they leave.
\<close>

fun run_calls ::
  "('s, 'v) inference_func \<Rightarrow> 's \<Rightarrow> (tensor2 \<times> 'v cache option \<times> flags) list \<Rightarrow> 's" where
  "run_calls f s [] = s"
| "run_calls f s ((x, past, fl) # calls) = run_calls f (snd (f s x past fl)) calls"

text \<open>
  Small concrete instances for evaluating the definitions: an inference function that
  appends the tokens it is given to the cache and counts its calls, except that it raises
  on the token 13; an executable that appends to its cache in the same way and never
  raises; and a transfer of logits that succeeds on the devices \<open>cuda\<close> and \<open>cpu\<close> only.
\<close>

definition appending_func :: "(nat, int list) inference_func" where
  "appending_func s x past fl =
     (Inr \<lparr>logits = concat (cols x),
           past_key_values = Some ((case past of None \<Rightarrow> [] | Some c \<Rightarrow> c) @ [concat (cols x)]),
           hidden_states = None, attentions = None\<rparr>, Suc s)"

definition failing_func :: "(nat, int list) inference_func" where
  "failing_func s x past fl =
     (if concat (cols x) = [13] then (Inl (ExternalError ''device fault''), Suc s)
      else appending_func s x past fl)"

definition sample_to_device :: "int list to_device" where
  "sample_to_device v device =
     (if device = ''cuda'' \<or> device = ''cpu'' then Inr v
      else Inl (RuntimeError ''Invalid device''))"

definition appending_run :: "('exe, 'p, int list, nat) executable_run" where
  "appending_run exe w params inputs =
     (Inr \<lparr>out_logits = concat (cols (in_position_ids inputs)),
           attention_cache = in_cache inputs @ [concat (cols (in_input_ids inputs))],
           out_hidden_states = None, out_attentions = None\<rparr>, Suc w)"

section \<open>Notions used in the statements\<close>

text \<open>
  For the distributed closure: the result object it builds from the transferred logits
  and an output of the executable, the cache and the step count it works with after the
  test \<open>past_key_values is None\<close>, and the dictionary it passes to the executable.
\<close>

definition output_of :: "'v \<Rightarrow> 'v exe_output \<Rightarrow> 'v InferenceFuncOutput" where
  "output_of logits_step out =
     \<lparr>logits = logits_step, past_key_values = Some (attention_cache out),
      hidden_states = out_hidden_states out, attentions = out_attentions out\<rparr>"

definition effective_cache :: "('exe, 'p, 'v, 'z) alpa_closure \<Rightarrow> 'v cache option \<Rightarrow> 'v cache" where
  "effective_cache cl past = (case past of None \<Rightarrow> cl_init_cache cl | Some c \<Rightarrow> c)"

definition effective_step :: "('exe, 'p, 'v, 'z) alpa_closure \<Rightarrow> 'v cache option \<Rightarrow> int" where
  "effective_step cl past = (case past of None \<Rightarrow> 0 | Some c \<Rightarrow> step_ct cl)"

definition exe_inputs_of ::
  "('exe, 'p, 'v, 'z) alpa_closure \<Rightarrow> tensor2 \<Rightarrow> 'v cache option \<Rightarrow> 'v exe_inputs" where
  "exe_inputs_of cl x past =
     \<lparr>in_input_ids = x,
      in_position_ids = filled x (effective_step cl past + pad (cl_config cl) + 1),
      in_cache = effective_cache cl past\<rparr>"

text \<open>
  Concrete instances for evaluation: a closure whose counter is left at 7 by an earlier
  episode, and an environment in which every external call succeeds.
\<close>

definition sample_closure :: "(nat, nat, int list, unit) alpa_closure" where
  "sample_closure = \<lparr>cl_executable = 0, cl_params = 0, cl_init_cache = [[0]],
                      cl_config = \<lparr>pad = 1\<rparr>, cl_device = ''cuda'', step_ct = 7\<rparr>"

definition sample_env :: "(string, nat, nat, nat, nat, int list, unit) env" where
  "sample_env = \<lparr>gpt2_from_pretrained = (\<lambda>name. Inr name),
                 opt_from_pretrained = (\<lambda>name dtype. Inr name),
                 model_to = (\<lambda>m device. Inr m),
                 raw_config = (\<lambda>m. 0),
                 getattr_config = (\<lambda>hc key. Inr PyNone),
                 alpa_init = Inr (),
                 num_hosts = 1,
                 get_config = (\<lambda>name stages. Inr \<lparr>pad = 1\<rparr>),
                 get_pipeshard_executable = (\<lambda>cfg a h ar. Inr (0, 0)),
                 load_params_dis_array = (\<lambda>path exe aval cfg dummy. Inr 0),
                 init_cache_dis_array = (\<lambda>exe cfg batch dummy. Inr [[0]]),
                 executable_sync = (\<lambda>exe. Inr ())\<rparr>"

section \<open>Properties of the adapter\<close>

lemma call_loop_run:
  "\<exists>res s' tr.
     call_loop (logged f) input_ids fl idxs (s, hist) past ret = (res, (s', hist @ tr)) \<and>
     call_loop f input_ids fl idxs s past ret = (res, s') \<and>
     length tr \<le> length idxs \<and>
     (\<forall>e \<in> set tr. f (ev_state e) (ev_input_ids e) (ev_past e) (ev_flags e)
                      = (ev_result e, ev_state_after e)) \<and>
     ((\<forall>e \<in> set tr. \<exists>r. ev_result e = Inr r) \<longrightarrow>
        (\<exists>outs. length outs = length idxs \<and> length tr = length idxs \<and>
           res = Inr (last (ret # map Some outs)) \<and>
           s' = last (s # map ev_state_after tr) \<and>
           map ev_input_ids tr = map (\<lambda>i. col_slice input_ids i (i + 1)) idxs \<and>
           map ev_past tr = take (length idxs) (past # map past_key_values outs) \<and>
           map ev_result tr = map Inr outs \<and>
           map ev_flags tr = replicate (length idxs) fl \<and>
           map ev_state tr = take (length idxs) (s # map ev_state_after tr))) \<and>
     ((\<exists>e \<in> set tr. \<exists>err. ev_result e = Inl err) \<longrightarrow>
        (\<exists>err. res = Inl err \<and> ev_result (last tr) = Inl err))"
proof (induction idxs arbitrary: s hist past ret)
  case Nil
  show ?case by simp
next
  case (Cons i idxs)
  let ?x = "col_slice input_ids i (i + 1)"
  obtain r0 s1 where step: "f s ?x past fl = (r0, s1)" by (cases "f s ?x past fl")
  define ev where "ev = \<lparr>ev_state = s, ev_input_ids = ?x, ev_past = past,
                         ev_flags = fl, ev_result = r0, ev_state_after = s1\<rparr>"
  have lstep: "logged f (s, hist) ?x past fl = (r0, (s1, hist @ [ev]))"
    using step by (simp add: logged_def ev_def)
  have evf: "f (ev_state ev) (ev_input_ids ev) (ev_past ev) (ev_flags ev)
               = (ev_result ev, ev_state_after ev)"
    using step by (simp add: ev_def)
  show ?case
  proof (cases r0)
    case (Inl err)
    have a: "call_loop (logged f) input_ids fl (i # idxs) (s, hist) past ret
               = (Inl err, (s1, hist @ [ev]))"
      using lstep Inl by simp
    have b: "call_loop f input_ids fl (i # idxs) s past ret = (Inl err, s1)"
      using step Inl by simp
    have c: "ev_result ev = Inl err" using Inl by (simp add: ev_def)
    have "length [ev] \<le> length (i # idxs)" by simp
    moreover have "\<forall>e \<in> set [ev]. f (ev_state e) (ev_input_ids e) (ev_past e) (ev_flags e)
                      = (ev_result e, ev_state_after e)"
      using evf by simp
    moreover have "\<not> (\<forall>e \<in> set [ev]. \<exists>r. ev_result e = Inr r)" using c by simp
    moreover have "\<exists>err'. Inl err = (Inl err' :: error + 'b InferenceFuncOutput option)
                      \<and> ev_result (last [ev]) = Inl err'"
      using c by simp
    ultimately show ?thesis using a b by blast
  next
    case (Inr r)
    have c: "ev_result ev = Inr r" using Inr by (simp add: ev_def)
    from Cons.IH [of s1 "hist @ [ev]" "past_key_values r" "Some r"]
    obtain res s' tr where ih:
      "call_loop (logged f) input_ids fl idxs (s1, hist @ [ev]) (past_key_values r) (Some r)
         = (res, (s', (hist @ [ev]) @ tr))"
      "call_loop f input_ids fl idxs s1 (past_key_values r) (Some r) = (res, s')"
      "length tr \<le> length idxs"
      "\<forall>e \<in> set tr. f (ev_state e) (ev_input_ids e) (ev_past e) (ev_flags e)
                      = (ev_result e, ev_state_after e)"
      "(\<forall>e \<in> set tr. \<exists>r. ev_result e = Inr r) \<longrightarrow>
        (\<exists>outs. length outs = length idxs \<and> length tr = length idxs \<and>
           res = Inr (last (Some r # map Some outs)) \<and>
           s' = last (s1 # map ev_state_after tr) \<and>
           map ev_input_ids tr = map (\<lambda>i. col_slice input_ids i (i + 1)) idxs \<and>
           map ev_past tr = take (length idxs) (past_key_values r # map past_key_values outs) \<and>
           map ev_result tr = map Inr outs \<and>
           map ev_flags tr = replicate (length idxs) fl \<and>
           map ev_state tr = take (length idxs) (s1 # map ev_state_after tr))"
      "(\<exists>e \<in> set tr. \<exists>err. ev_result e = Inl err) \<longrightarrow>
        (\<exists>err. res = Inl err \<and> ev_result (last tr) = Inl err)"
      by blast
    have a: "call_loop (logged f) input_ids fl (i # idxs) (s, hist) past ret
               = (res, (s', hist @ ev # tr))"
      using lstep Inr ih(1) by simp
    have b: "call_loop f input_ids fl (i # idxs) s past ret = (res, s')"
      using step Inr ih(2) by simp
    have l: "length (ev # tr) \<le> length (i # idxs)" using ih(3) by simp
    have fe: "\<forall>e \<in> set (ev # tr). f (ev_state e) (ev_input_ids e) (ev_past e) (ev_flags e)
                      = (ev_result e, ev_state_after e)"
      using evf ih(4) by simp
    have good: "\<exists>outs. length outs = length (i # idxs) \<and> length (ev # tr) = length (i # idxs) \<and>
           res = Inr (last (ret # map Some outs)) \<and>
           s' = last (s # map ev_state_after (ev # tr)) \<and>
           map ev_input_ids (ev # tr) = map (\<lambda>i. col_slice input_ids i (i + 1)) (i # idxs) \<and>
           map ev_past (ev # tr) = take (length (i # idxs)) (past # map past_key_values outs) \<and>
           map ev_result (ev # tr) = map Inr outs \<and>
           map ev_flags (ev # tr) = replicate (length (i # idxs)) fl \<and>
           map ev_state (ev # tr) = take (length (i # idxs)) (s # map ev_state_after (ev # tr))"
      if g: "\<forall>e \<in> set (ev # tr). \<exists>r. ev_result e = Inr r"
    proof -
      from g have "\<forall>e \<in> set tr. \<exists>r. ev_result e = Inr r" by simp
      with ih(5) obtain outs where o:
        "length outs = length idxs" "length tr = length idxs"
        "res = Inr (last (Some r # map Some outs))"
        "s' = last (s1 # map ev_state_after tr)"
        "map ev_input_ids tr = map (\<lambda>i. col_slice input_ids i (i + 1)) idxs"
        "map ev_past tr = take (length idxs) (past_key_values r # map past_key_values outs)"
        "map ev_result tr = map Inr outs"
        "map ev_flags tr = replicate (length idxs) fl"
        "map ev_state tr = take (length idxs) (s1 # map ev_state_after tr)"
        by blast
      have "length (r # outs) = length (i # idxs)" "length (ev # tr) = length (i # idxs)"
        using o(1,2) by simp_all
      moreover have "res = Inr (last (ret # map Some (r # outs)))" using o(3) by simp
      moreover have "s' = last (s # map ev_state_after (ev # tr))"
        using o(4) by (simp add: ev_def)
      moreover have "map ev_input_ids (ev # tr)
          = map (\<lambda>i. col_slice input_ids i (i + 1)) (i # idxs)"
        using o(5) by (simp add: ev_def)
      moreover have "map ev_past (ev # tr)
          = take (length (i # idxs)) (past # map past_key_values (r # outs))"
        using o(6) by (simp add: ev_def)
      moreover have "map ev_result (ev # tr) = map Inr (r # outs)"
        using o(7) c by simp
      moreover have "map ev_flags (ev # tr) = replicate (length (i # idxs)) fl"
        using o(8) by (simp add: ev_def)
      moreover have "map ev_state (ev # tr)
          = take (length (i # idxs)) (s # map ev_state_after (ev # tr))"
        using o(9) by (simp add: ev_def)
      ultimately show ?thesis by blast
    qed
    have bad: "\<exists>err. res = Inl err \<and> ev_result (last (ev # tr)) = Inl err"
      if "\<exists>e \<in> set (ev # tr). \<exists>err. ev_result e = Inl err"
    proof -
      from that c have t: "\<exists>e \<in> set tr. \<exists>err. ev_result e = Inl err" by auto
      then have "tr \<noteq> []" by auto
      with ih(6) t show ?thesis by simp
    qed
    from a b l fe good bad show ?thesis by blast
  qed
qed

lemma col_slice_single:
  assumes "i < shape1 t"
  shows "col_slice t i (i + 1) = t\<lparr>cols := [cols t ! i]\<rparr>"
proof -
  have "take 1 (drop i (cols t)) = [cols t ! i]"
    using assms by (simp add: shape1_def take_Suc_conv_app_nth hd_drop_conv_nth take_Suc)
  then show ?thesis by (simp add: col_slice_def)
qed

lemma single_positions:
  "map (\<lambda>i. col_slice t i (i + 1)) [0 ..< shape1 t] = map (\<lambda>i. t\<lparr>cols := [cols t ! i]\<rparr>) [0 ..< shape1 t]"
proof (rule map_cong)
  fix i assume "i \<in> set [0 ..< shape1 t]"
  then have "i < shape1 t" by simp
  then show "col_slice t i (i + 1) = t\<lparr>cols := [cols t ! i]\<rparr>" by (rule col_slice_single)
qed simp

text \<open>
  Claim C1. On an input with \<open>N \<ge> 1\<close> token positions \<open>__call__\<close> calls the inference
  function in position order, at least once and at most \<open>N\<close> times; the recorded calls are
  calls of the inference function, and the result and final state do not depend on the
  recording. When every call made in the run returns, there are exactly \<open>N\<close> calls, call
  \<open>i\<close> receives only the token at position \<open>i\<close>, the cache returned by call \<open>i - 1\<close> (the
  caller's \<open>past_key_values\<close> for \<open>i = 0\<close>) and the flags of \<open>__call__\<close>, each call starts
  in the state the previous one left, and the value returned is the result of call
  \<open>N - 1\<close>. When a call raises, it is the last call of the run and \<open>__call__\<close> raises its
  exception.
\<close>

theorem call_decomposes_into_single_token_calls:
  assumes "1 \<le> shape1 input_ids"
  shows "\<exists>res s' tr.
     wrapped_call (logged f) (s, []) input_ids past out_attn out_hidden return_dict
       = (res, (s', tr)) \<and>
     wrapped_call f s input_ids past out_attn out_hidden return_dict = (res, s') \<and>
     1 \<le> length tr \<and> length tr \<le> shape1 input_ids \<and>
     (\<forall>e \<in> set tr. f (ev_state e) (ev_input_ids e) (ev_past e) (ev_flags e)
                      = (ev_result e, ev_state_after e)) \<and>
     ((\<forall>e \<in> set tr. \<exists>r. ev_result e = Inr r) \<longrightarrow>
        (\<exists>outs. length outs = shape1 input_ids \<and> length tr = shape1 input_ids \<and>
           res = Inr (last outs) \<and>
           s' = last (map ev_state_after tr) \<and>
           map ev_input_ids tr
             = map (\<lambda>i. input_ids\<lparr>cols := [cols input_ids ! i]\<rparr>) [0 ..< shape1 input_ids] \<and>
           map ev_past tr = take (shape1 input_ids) (past # map past_key_values outs) \<and>
           map ev_result tr = map Inr outs \<and>
           map ev_flags tr = replicate (shape1 input_ids)
              \<lparr>output_attentions = out_attn, output_hidden_states = out_hidden\<rparr> \<and>
           map ev_state tr = take (shape1 input_ids) (s # map ev_state_after tr))) \<and>
     ((\<exists>e \<in> set tr. \<exists>err. ev_result e = Inl err) \<longrightarrow>
        (\<exists>err. res = Inl err \<and> ev_result (last tr) = Inl err))"
proof -
  let ?fl = "\<lparr>output_attentions = out_attn, output_hidden_states = out_hidden\<rparr>"
  let ?n = "shape1 input_ids"
  from call_loop_run [of f input_ids ?fl "[0 ..< ?n]" s "[]" past None]
  obtain res0 s' tr where h:
    "call_loop (logged f) input_ids ?fl [0 ..< ?n] (s, []) past None = (res0, (s', tr))"
    "call_loop f input_ids ?fl [0 ..< ?n] s past None = (res0, s')"
    "length tr \<le> ?n"
    "\<forall>e \<in> set tr. f (ev_state e) (ev_input_ids e) (ev_past e) (ev_flags e)
                      = (ev_result e, ev_state_after e)"
    "(\<forall>e \<in> set tr. \<exists>r. ev_result e = Inr r) \<longrightarrow>
        (\<exists>outs. length outs = ?n \<and> length tr = ?n \<and>
           res0 = Inr (last (None # map Some outs)) \<and>
           s' = last (s # map ev_state_after tr) \<and>
           map ev_input_ids tr = map (\<lambda>i. col_slice input_ids i (i + 1)) [0 ..< ?n] \<and>
           map ev_past tr = take ?n (past # map past_key_values outs) \<and>
           map ev_result tr = map Inr outs \<and>
           map ev_flags tr = replicate ?n ?fl \<and>
           map ev_state tr = take ?n (s # map ev_state_after tr))"
    "(\<exists>e \<in> set tr. \<exists>err. ev_result e = Inl err) \<longrightarrow>
        (\<exists>err. res0 = Inl err \<and> ev_result (last tr) = Inl err)"
    unfolding append_Nil length_upt diff_zero by blast
  define res where "res = (case res0 of Inl e \<Rightarrow> Inl e
                           | Inr None \<Rightarrow> Inl (UnboundLocalError ''ret'')
                           | Inr (Some r) \<Rightarrow> Inr r)"
  have a: "wrapped_call (logged f) (s, []) input_ids past out_attn out_hidden return_dict
             = (res, (s', tr))"
    using h(1) by (simp add: wrapped_call_def res_def split: sum.split option.split)
  have b: "wrapped_call f s input_ids past out_attn out_hidden return_dict = (res, s')"
    using h(2) by (simp add: wrapped_call_def res_def split: sum.split option.split)
  have ne: "tr \<noteq> []"
  proof
    assume "tr = []"
    with h(5) obtain outs where "length outs = ?n" "length tr = ?n" by auto
    with \<open>tr = []\<close> assms show False by simp
  qed
  then have c: "1 \<le> length tr" by (cases tr) simp_all
  have good: "\<exists>outs. length outs = ?n \<and> length tr = ?n \<and>
           res = Inr (last outs) \<and>
           s' = last (map ev_state_after tr) \<and>
           map ev_input_ids tr = map (\<lambda>i. input_ids\<lparr>cols := [cols input_ids ! i]\<rparr>) [0 ..< ?n] \<and>
           map ev_past tr = take ?n (past # map past_key_values outs) \<and>
           map ev_result tr = map Inr outs \<and>
           map ev_flags tr = replicate ?n ?fl \<and>
           map ev_state tr = take ?n (s # map ev_state_after tr)"
    if "\<forall>e \<in> set tr. \<exists>r. ev_result e = Inr r"
  proof -
    from that h(5) obtain outs where o:
      "length outs = ?n" "length tr = ?n"
      "res0 = Inr (last (None # map Some outs))"
      "s' = last (s # map ev_state_after tr)"
      "map ev_input_ids tr = map (\<lambda>i. col_slice input_ids i (i + 1)) [0 ..< ?n]"
      "map ev_past tr = take ?n (past # map past_key_values outs)"
      "map ev_result tr = map Inr outs"
      "map ev_flags tr = replicate ?n ?fl"
      "map ev_state tr = take ?n (s # map ev_state_after tr)"
      by blast
    have "outs \<noteq> []" using o(1) assms by auto
    then have "last (None # map Some outs) = Some (last outs)" by (simp add: last_map)
    with o(3) have "res = Inr (last outs)" by (simp add: res_def)
    moreover have "s' = last (map ev_state_after tr)" using o(4) ne by simp
    moreover have "map ev_input_ids tr
        = map (\<lambda>i. input_ids\<lparr>cols := [cols input_ids ! i]\<rparr>) [0 ..< ?n]"
      using o(5) single_positions by simp
    ultimately show ?thesis using o(1,2,6,7,8,9) by blast
  qed
  have bad: "\<exists>err. res = Inl err \<and> ev_result (last tr) = Inl err"
    if "\<exists>e \<in> set tr. \<exists>err. ev_result e = Inl err"
  proof -
    from that h(6) obtain err where "res0 = Inl err" "ev_result (last tr) = Inl err" by blast
    then show ?thesis by (simp add: res_def)
  qed
  from a b c h(3) h(4) good bad show ?thesis by blast
qed

theorem call_decomposes_into_single_token_calls_witness:
  "1 \<le> shape1 \<lparr>dim0 = 1, cols = [[5], [7]]\<rparr> \<and>
   map (\<lambda>e. isl (ev_result e))
     (snd (snd (wrapped_call (logged appending_func) (0, []) \<lparr>dim0 = 1, cols = [[5], [7]]\<rparr>
                  None None None None)))
     = [False, False] \<and>
   length (snd (snd (wrapped_call (logged appending_func) (0, [])
                       \<lparr>dim0 = 1, cols = [[5], [7]]\<rparr> None None None None))) = 2 \<and>
   map ev_input_ids
     (snd (snd (wrapped_call (logged appending_func) (0, []) \<lparr>dim0 = 1, cols = [[5], [7]]\<rparr>
                  None None None None)))
     = [\<lparr>dim0 = 1, cols = [[5]]\<rparr>, \<lparr>dim0 = 1, cols = [[7]]\<rparr>] \<and>
   1 \<le> shape1 \<lparr>dim0 = 1, cols = [[5], [13], [9]]\<rparr> \<and>
   map (\<lambda>e. isl (ev_result e))
     (snd (snd (wrapped_call (logged failing_func) (0, []) \<lparr>dim0 = 1, cols = [[5], [13], [9]]\<rparr>
                  None None None None)))
     = [False, True] \<and>
   fst (wrapped_call failing_func 0 \<lparr>dim0 = 1, cols = [[5], [13], [9]]\<rparr> None None None None)
     = Inl (ExternalError ''device fault'')"
proof -
  let ?t = "\<lparr>dim0 = 1, cols = [[5], [7]]\<rparr>"
  let ?u = "\<lparr>dim0 = 1, cols = [[5], [13], [9]]\<rparr>"
  let ?H = "snd (snd (wrapped_call (logged appending_func) (0, []) ?t None None None None))"
  let ?K = "snd (snd (wrapped_call (logged failing_func) (0, []) ?u None None None None))"
  have a: "1 \<le> shape1 ?t" and b: "1 \<le> shape1 ?u" by (simp_all add: shape1_def)
  have g: "\<forall>e \<in> set ?H. \<exists>r. ev_result e = Inr r"
    by (simp add: wrapped_call_def shape1_def upt_rec logged_def appending_func_def col_slice_def)
  have gl: "map (\<lambda>e. isl (ev_result e)) ?H = [False, False]"
    by (simp add: wrapped_call_def shape1_def upt_rec logged_def appending_func_def col_slice_def)
  have kh: "map (\<lambda>e. isl (ev_result e)) ?K = [False, True]"
    by (simp add: wrapped_call_def shape1_def upt_rec logged_def appending_func_def
          failing_func_def col_slice_def)
  have kl: "ev_result (last ?K) = Inl (ExternalError ''device fault'')"
    by (simp add: wrapped_call_def shape1_def upt_rec logged_def appending_func_def
          failing_func_def col_slice_def)
  have kb: "\<exists>e \<in> set ?K. \<exists>err. ev_result e = Inl err"
    by (simp add: wrapped_call_def shape1_def upt_rec logged_def appending_func_def
          failing_func_def col_slice_def)
  from call_decomposes_into_single_token_calls [OF a, of appending_func 0 None None None None]
  obtain res s' tr where h:
    "wrapped_call (logged appending_func) (0, []) ?t None None None None = (res, (s', tr))"
    "(\<forall>e \<in> set tr. \<exists>r. ev_result e = Inr r) \<longrightarrow>
        (\<exists>outs. length outs = shape1 ?t \<and> length tr = shape1 ?t \<and>
           res = Inr (last outs) \<and>
           s' = last (map ev_state_after tr) \<and>
           map ev_input_ids tr = map (\<lambda>i. ?t\<lparr>cols := [cols ?t ! i]\<rparr>) [0 ..< shape1 ?t] \<and>
           map ev_past tr = take (shape1 ?t) (None # map past_key_values outs) \<and>
           map ev_result tr = map Inr outs \<and>
           map ev_flags tr = replicate (shape1 ?t)
              \<lparr>output_attentions = None, output_hidden_states = None\<rparr> \<and>
           map ev_state tr = take (shape1 ?t) (0 # map ev_state_after tr))"
    by (elim exE conjE) (rule that)
  from h(1) have tr: "tr = ?H" by simp
  from h(2) g tr obtain outs where
    "length ?H = shape1 ?t"
    "map ev_input_ids ?H = map (\<lambda>i. ?t\<lparr>cols := [cols ?t ! i]\<rparr>) [0 ..< shape1 ?t]"
    by blast
  then have "length ?H = shape1 ?t"
    "map ev_input_ids ?H = map (\<lambda>i. ?t\<lparr>cols := [cols ?t ! i]\<rparr>) [0 ..< shape1 ?t]"
    by blast+
  moreover have "shape1 ?t = 2" by (simp add: shape1_def)
  moreover have "map (\<lambda>i. ?t\<lparr>cols := [cols ?t ! i]\<rparr>) [0 ..< shape1 ?t]
          = [\<lparr>dim0 = 1, cols = [[5]]\<rparr>, \<lparr>dim0 = 1, cols = [[7]]\<rparr>]"
    by (simp add: shape1_def upt_rec)
  ultimately have 1: "length ?H = 2"
    "map ev_input_ids ?H = [\<lparr>dim0 = 1, cols = [[5]]\<rparr>, \<lparr>dim0 = 1, cols = [[7]]\<rparr>]"
    by simp_all
  from call_decomposes_into_single_token_calls [OF b, of failing_func 0 None None None None]
  obtain res2 s2 tr2 where k:
    "wrapped_call (logged failing_func) (0, []) ?u None None None None = (res2, (s2, tr2))"
    "wrapped_call failing_func 0 ?u None None None None = (res2, s2)"
    "(\<exists>e \<in> set tr2. \<exists>err. ev_result e = Inl err) \<longrightarrow>
        (\<exists>err. res2 = Inl err \<and> ev_result (last tr2) = Inl err)"
    by (elim exE conjE) (rule that)
  from k(1) have tr2: "tr2 = ?K" by simp
  from k(3) kb tr2 obtain err where "res2 = Inl err" "ev_result (last ?K) = Inl err" by blast
  with kl k(2) have 2: "fst (wrapped_call failing_func 0 ?u None None None None)
     = Inl (ExternalError ''device fault'')" by simp
  from a b gl kh 1 2 show ?thesis by (intro conjI)
qed

text \<open>Without a position the loop body does not run and \<open>ret\<close> is unbound.\<close>

lemma call_without_positions:
  "shape1 input_ids = 0 \<Longrightarrow>
     wrapped_call f s input_ids past out_attn out_hidden return_dict
       = (Inl (UnboundLocalError ''ret''), s)"
  by (simp add: wrapped_call_def)

text \<open>
  Claim C10. On an input with no token position (\<open>N = 0\<close>) \<open>__call__\<close> calls the inference
  function not once (state and history are unchanged) and raises UnboundLocalError for
  \<open>ret\<close>; whenever \<open>__call__\<close> returns a result, the input had \<open>N \<ge> 1\<close> positions.
\<close>

theorem call_requires_a_position:
  "(shape1 input_ids = 0 \<longrightarrow>
      wrapped_call f s input_ids past out_attn out_hidden return_dict
        = (Inl (UnboundLocalError ''ret''), s) \<and>
      wrapped_call (logged f) (s, hist) input_ids past out_attn out_hidden return_dict
        = (Inl (UnboundLocalError ''ret''), (s, hist))) \<and>
   (\<forall>r. fst (wrapped_call f s input_ids past out_attn out_hidden return_dict) = Inr r
        \<longrightarrow> 1 \<le> shape1 input_ids)"
proof -
  have "1 \<le> shape1 input_ids"
    if "fst (wrapped_call f s input_ids past out_attn out_hidden return_dict) = Inr r" for r
  proof (rule ccontr)
    assume "\<not> 1 \<le> shape1 input_ids"
    then have "shape1 input_ids = 0" by simp
    from call_without_positions [OF this, of f s] that show False by simp
  qed
  then show ?thesis by (simp add: call_without_positions)
qed

theorem call_requires_a_position_witness:
  "shape1 \<lparr>dim0 = 1, cols = []\<rparr> = 0 \<and>
   wrapped_call (logged appending_func) (0, []) \<lparr>dim0 = 1, cols = []\<rparr> None None None None
     = (Inl (UnboundLocalError ''ret''), (0, [])) \<and>
   fst (wrapped_call appending_func 0 \<lparr>dim0 = 1, cols = [[5]]\<rparr> None None None None)
     = Inr \<lparr>logits = [5], past_key_values = Some [[5]], hidden_states = None, attentions = None\<rparr> \<and>
   1 \<le> shape1 \<lparr>dim0 = 1, cols = [[5]]\<rparr>"
proof -
  have z: "shape1 \<lparr>dim0 = 1, cols = []\<rparr> = 0" by (simp add: shape1_def)
  have e: "fst (wrapped_call appending_func 0 \<lparr>dim0 = 1, cols = [[5]]\<rparr> None None None None)
     = Inr \<lparr>logits = [5], past_key_values = Some [[5]], hidden_states = None, attentions = None\<rparr>"
    by (simp add: wrapped_call_def shape1_def appending_func_def col_slice_def)
  from call_requires_a_position [of "\<lparr>dim0 = 1, cols = []\<rparr>" appending_func 0 None None None None "[]"]
    call_requires_a_position [of "\<lparr>dim0 = 1, cols = [[5]]\<rparr>" appending_func 0 None None None None "[]"]
    z e
  show ?thesis by simp
qed

text \<open>
  Claim C3. In the generation protocol \<open>past\<close> is \<open>None\<close> at the first step and afterwards
  the cache returned by \<open>__call__\<close>, which has an entry per layer and is given together
  with a token history of at least one position. With no past cache the result holds the
  full input; with a past cache it holds only the last position, as a width-1 tensor;
  the past cache is passed through unchanged.
\<close>

theorem prepare_inputs_for_generation_steps:
  "prepare_inputs_for_generation input_ids None
     = Inr \<lparr>prep_input_ids = input_ids, prep_past_key_values = None\<rparr> \<and>
   (c \<noteq> [] \<and> 1 \<le> shape1 input_ids \<longrightarrow>
      prepare_inputs_for_generation input_ids (Some c)
        = Inr \<lparr>prep_input_ids = input_ids\<lparr>cols := [cols input_ids ! (shape1 input_ids - 1)]\<rparr>,
               prep_past_key_values = Some c\<rparr> \<and>
      shape1 (input_ids\<lparr>cols := [cols input_ids ! (shape1 input_ids - 1)]\<rparr>) = 1)"
proof -
  have "last (cols input_ids) = cols input_ids ! (shape1 input_ids - 1)"
    if "1 \<le> shape1 input_ids"
  proof -
    from that have "cols input_ids \<noteq> []" by (auto simp: shape1_def)
    then show ?thesis by (simp add: shape1_def last_conv_nth)
  qed
  then show ?thesis
    by (auto simp: prepare_inputs_for_generation_def last_col_unsqueezed_def shape1_def
          truthy_def)
qed

theorem prepare_inputs_for_generation_steps_witness:
  "prepare_inputs_for_generation \<lparr>dim0 = 1, cols = [[5], [7]]\<rparr> (None :: int cache option)
     = Inr \<lparr>prep_input_ids = \<lparr>dim0 = 1, cols = [[5], [7]]\<rparr>, prep_past_key_values = None\<rparr> \<and>
   ([1 :: int] \<noteq> [] \<and> 1 \<le> shape1 \<lparr>dim0 = 1, cols = [[5], [7]]\<rparr>) \<and>
   prepare_inputs_for_generation \<lparr>dim0 = 1, cols = [[5], [7]]\<rparr> (Some [1 :: int])
     = Inr \<lparr>prep_input_ids = \<lparr>dim0 = 1, cols = [[7]]\<rparr>, prep_past_key_values = Some [1]\<rparr>"
proof -
  have n: "shape1 \<lparr>dim0 = 1, cols = [[5], [7]]\<rparr> = 2" by (simp add: shape1_def)
  have c: "[1 :: int] \<noteq> [] \<and> 1 \<le> shape1 \<lparr>dim0 = 1, cols = [[5], [7]]\<rparr>"
    by (simp add: shape1_def)
  have i: "\<lparr>dim0 = 1, cols = [[5], [7]]\<rparr>
             \<lparr>cols := [cols \<lparr>dim0 = 1, cols = [[5], [7]]\<rparr>
                          ! (shape1 \<lparr>dim0 = 1, cols = [[5], [7]]\<rparr> - 1)]\<rparr>
           = \<lparr>dim0 = 1, cols = [[7]]\<rparr>"
    by (simp add: shape1_def)
  from prepare_inputs_for_generation_steps [of "\<lparr>dim0 = 1, cols = [[5], [7]]\<rparr>" "[1 :: int]"] c
  have "prepare_inputs_for_generation \<lparr>dim0 = 1, cols = [[5], [7]]\<rparr> (None :: int cache option)
     = Inr \<lparr>prep_input_ids = \<lparr>dim0 = 1, cols = [[5], [7]]\<rparr>, prep_past_key_values = None\<rparr>"
    "prepare_inputs_for_generation \<lparr>dim0 = 1, cols = [[5], [7]]\<rparr> (Some [1 :: int])
     = Inr \<lparr>prep_input_ids = \<lparr>dim0 = 1, cols = [[7]]\<rparr>, prep_past_key_values = Some [1]\<rparr>"
    unfolding i by blast+
  with c show ?thesis by blast
qed

section \<open>Properties of the distributed backend\<close>

lemma alpa_call_overflow:
  assumes "\<not> in_int64 (effective_step cl past + pad (cl_config cl) + 1)"
  shows "alpa_inference_func run to_device (cl, w) x past fl
           = (Inl OverflowError, (cl\<lparr>step_ct := effective_step cl past\<rparr>, w))"
  using assms
  by (cases past)
     (simp_all add: alpa_inference_func_def effective_step_def full_like_def)

lemma alpa_call_run:
  assumes "in_int64 (effective_step cl past + pad (cl_config cl) + 1)"
    and "run (cl_executable cl) w (cl_params cl) (exe_inputs_of cl x past) = (r, w')"
  shows "alpa_inference_func run to_device (cl, w) x past fl
           = (case r of
                Inl e \<Rightarrow> (Inl e, (cl\<lparr>step_ct := effective_step cl past\<rparr>, w'))
              | Inr out \<Rightarrow>
                 (case to_device (out_logits out) (cl_device cl) of
                    Inl e \<Rightarrow> (Inl e, (cl\<lparr>step_ct := effective_step cl past\<rparr>, w'))
                  | Inr v \<Rightarrow> (Inr (output_of v out),
                              (cl\<lparr>step_ct := effective_step cl past + 1\<rparr>, w'))))"
  using assms
  by (cases past)
     (simp_all add: alpa_inference_func_def effective_step_def full_like_def exe_inputs_of_def
        effective_cache_def output_of_def split: sum.split)

lemma logged_run_call:
  assumes "run exe w params inputs = (r, w')"
  shows "logged_run run exe (w, hist) params inputs
           = (r, (w', hist @ [\<lparr>xe_inputs = inputs, xe_result = r\<rparr>]))"
  using assms by (simp add: logged_run_def)

text \<open>What one call does to the counter, to the device and to the history of the executable.\<close>

lemma alpa_call_outcome:
  "\<exists>res ct' w' xs.
     alpa_inference_func (logged_run run) to_device (cl, (w, hist)) x past fl
       = (res, (cl\<lparr>step_ct := ct'\<rparr>, (w', hist @ xs))) \<and>
     alpa_inference_func run to_device (cl, w) x past fl = (res, (cl\<lparr>step_ct := ct'\<rparr>, w')) \<and>
     (\<not> in_int64 (effective_step cl past + pad (cl_config cl) + 1) \<longrightarrow>
        xs = [] \<and> res = Inl OverflowError \<and> w' = w) \<and>
     (in_int64 (effective_step cl past + pad (cl_config cl) + 1) \<longrightarrow>
        xs = [\<lparr>xe_inputs = exe_inputs_of cl x past,
               xe_result = fst (run (cl_executable cl) w (cl_params cl) (exe_inputs_of cl x past))\<rparr>] \<and>
        w' = snd (run (cl_executable cl) w (cl_params cl) (exe_inputs_of cl x past))) \<and>
     ((\<exists>e. res = Inl e) \<longrightarrow> ct' = effective_step cl past) \<and>
     (\<forall>out. res = Inr out \<longrightarrow>
        ct' = effective_step cl past + 1 \<and>
        (\<exists>y v. xs = [\<lparr>xe_inputs = exe_inputs_of cl x past, xe_result = Inr y\<rparr>] \<and>
               to_device (out_logits y) (cl_device cl) = Inr v \<and> out = output_of v y)) \<and>
     ((\<exists>y v. xs = [\<lparr>xe_inputs = exe_inputs_of cl x past, xe_result = Inr y\<rparr>] \<and>
              to_device (out_logits y) (cl_device cl) = Inr v) \<longrightarrow> (\<exists>out. res = Inr out))"
proof (cases "in_int64 (effective_step cl past + pad (cl_config cl) + 1)")
  case False
  from alpa_call_overflow [OF False, of "logged_run run" to_device "(w, hist)" x fl]
    alpa_call_overflow [OF False, of run to_device w x fl]
  have "alpa_inference_func (logged_run run) to_device (cl, (w, hist)) x past fl
       = (Inl OverflowError, (cl\<lparr>step_ct := effective_step cl past\<rparr>, (w, hist @ [])))"
    "alpa_inference_func run to_device (cl, w) x past fl
       = (Inl OverflowError, (cl\<lparr>step_ct := effective_step cl past\<rparr>, w))"
    by simp_all
  with False show ?thesis by blast
next
  case True
  let ?inp = "exe_inputs_of cl x past"
  obtain r w1 where r: "run (cl_executable cl) w (cl_params cl) ?inp = (r, w1)"
    by (cases "run (cl_executable cl) w (cl_params cl) ?inp")
  let ?ev = "\<lparr>xe_inputs = ?inp, xe_result = r\<rparr>"
  have lr: "logged_run run (cl_executable cl) (w, hist) (cl_params cl) ?inp
              = (r, (w1, hist @ [?ev]))"
    using r by (simp add: logged_run_def)
  note a = alpa_call_run [where run = "logged_run run" and w = "(w, hist)" and to_device = to_device
      and fl = fl and cl = cl and x = x and past = past and r = r and w' = "(w1, hist @ [?ev])",
      OF True lr]
  note b = alpa_call_run [where run = run and w = w and to_device = to_device and fl = fl
      and cl = cl and x = x and past = past and r = r and w' = w1, OF True r]
  show ?thesis
  proof (cases r)
    case (Inl e)
    from a b Inl have
      "alpa_inference_func (logged_run run) to_device (cl, (w, hist)) x past fl
         = (Inl e, (cl\<lparr>step_ct := effective_step cl past\<rparr>, (w1, hist @ [?ev])))"
      "alpa_inference_func run to_device (cl, w) x past fl
         = (Inl e, (cl\<lparr>step_ct := effective_step cl past\<rparr>, w1))"
      by simp_all
    moreover have "[?ev] = [\<lparr>xe_inputs = ?inp,
         xe_result = fst (run (cl_executable cl) w (cl_params cl) ?inp)\<rparr>]"
      "w1 = snd (run (cl_executable cl) w (cl_params cl) ?inp)"
      using r by simp_all
    moreover have "\<not> (\<exists>y v. [?ev] = [\<lparr>xe_inputs = ?inp, xe_result = Inr y\<rparr>] \<and>
              to_device (out_logits y) (cl_device cl) = Inr v)"
      using Inl by simp
    ultimately show ?thesis using True by blast
  next
    case (Inr y)
    show ?thesis
    proof (cases "to_device (out_logits y) (cl_device cl)")
      case (Inl e)
      from a b Inr Inl have
        "alpa_inference_func (logged_run run) to_device (cl, (w, hist)) x past fl
           = (Inl e, (cl\<lparr>step_ct := effective_step cl past\<rparr>, (w1, hist @ [?ev])))"
        "alpa_inference_func run to_device (cl, w) x past fl
           = (Inl e, (cl\<lparr>step_ct := effective_step cl past\<rparr>, w1))"
        by simp_all
      moreover have "[?ev] = [\<lparr>xe_inputs = ?inp,
           xe_result = fst (run (cl_executable cl) w (cl_params cl) ?inp)\<rparr>]"
        "w1 = snd (run (cl_executable cl) w (cl_params cl) ?inp)"
        using r by simp_all
      moreover have "\<not> (\<exists>y' v. [?ev] = [\<lparr>xe_inputs = ?inp, xe_result = Inr y'\<rparr>] \<and>
              to_device (out_logits y') (cl_device cl) = Inr v)"
        using Inr Inl by auto
      ultimately show ?thesis using True by blast
    next
      case ok: (Inr v)
      from a b Inr ok have
        "alpa_inference_func (logged_run run) to_device (cl, (w, hist)) x past fl
           = (Inr (output_of v y), (cl\<lparr>step_ct := effective_step cl past + 1\<rparr>, (w1, hist @ [?ev])))"
        "alpa_inference_func run to_device (cl, w) x past fl
           = (Inr (output_of v y), (cl\<lparr>step_ct := effective_step cl past + 1\<rparr>, w1))"
        by simp_all
      moreover have "[?ev] = [\<lparr>xe_inputs = ?inp,
           xe_result = fst (run (cl_executable cl) w (cl_params cl) ?inp)\<rparr>]"
        "w1 = snd (run (cl_executable cl) w (cl_params cl) ?inp)"
        using r by simp_all
      moreover have "\<exists>y' v'. [?ev] = [\<lparr>xe_inputs = ?inp, xe_result = Inr y'\<rparr>] \<and>
               to_device (out_logits y') (cl_device cl) = Inr v' \<and> output_of v y = output_of v' y'"
        using Inr ok by auto
      ultimately show ?thesis using True by blast
    qed
  qed
qed

lemma alpa_loop_run:
  "\<exists>res cl' w' xs.
     call_loop (alpa_inference_func (logged_run run) to_device) input_ids fl idxs
         (cl, (w, hist)) past ret = (res, (cl', (w', hist @ xs))) \<and>
     call_loop (alpa_inference_func run to_device) input_ids fl idxs (cl, w) past ret
       = (res, (cl', w')) \<and>
     length xs \<le> length idxs \<and>
     ((\<forall>e \<in> set xs. \<exists>y v. xe_result e = Inr y \<and> to_device (out_logits y) (cl_device cl) = Inr v) \<and>
      (\<forall>j < length idxs. in_int64 (effective_step cl past + int j + pad (cl_config cl) + 1)) \<longrightarrow>
        (\<exists>ys. length ys = length idxs \<and> length xs = length idxs \<and>
           map xe_result xs = map Inr ys \<and>
           (idxs = [] \<longrightarrow> res = Inr ret \<and> cl' = cl) \<and>
           (idxs \<noteq> [] \<longrightarrow>
              (\<exists>v. to_device (out_logits (last ys)) (cl_device cl) = Inr v \<and>
                   res = Inr (Some (output_of v (last ys)))) \<and>
              cl' = cl\<lparr>step_ct := effective_step cl past + int (length idxs)\<rparr>) \<and>
           map (\<lambda>e. in_input_ids (xe_inputs e)) xs
             = map (\<lambda>i. col_slice input_ids i (i + 1)) idxs \<and>
           map (\<lambda>e. in_position_ids (xe_inputs e)) xs
             = map (\<lambda>(j, i). filled (col_slice input_ids i (i + 1))
                               (effective_step cl past + int j + pad (cl_config cl) + 1))
                   (enumerate 0 idxs) \<and>
           map (\<lambda>e. in_cache (xe_inputs e)) xs
             = take (length idxs) (effective_cache cl past # map attention_cache ys))) \<and>
     (\<not> ((\<forall>e \<in> set xs. \<exists>y v. xe_result e = Inr y
                \<and> to_device (out_logits y) (cl_device cl) = Inr v) \<and>
         (\<forall>j < length idxs. in_int64 (effective_step cl past + int j + pad (cl_config cl) + 1)))
        \<longrightarrow> (\<exists>err. res = Inl err))"
proof (induction idxs arbitrary: cl w hist past ret)
  case Nil
  show ?case by simp
next
  case (Cons i idxs)
  let ?F = "alpa_inference_func (logged_run run) to_device"
  let ?G = "alpa_inference_func run to_device"
  let ?x = "col_slice input_ids i (i + 1)"
  let ?ct = "effective_step cl past"
  let ?p = "?ct + pad (cl_config cl) + 1"
  let ?inp = "exe_inputs_of cl ?x past"
  let ?good = "\<lambda>xs. \<forall>e \<in> set xs. \<exists>y v. xe_result e = Inr y
                       \<and> to_device (out_logits y) (cl_device cl) = Inr v"
  let ?bounds = "\<forall>j < length (i # idxs). in_int64 (?ct + int j + pad (cl_config cl) + 1)"
  show ?case
  proof (cases "in_int64 ?p")
    case False
    from alpa_call_overflow [OF False, of "logged_run run" to_device "(w, hist)" ?x fl]
    have a: "call_loop ?F input_ids fl (i # idxs) (cl, (w, hist)) past ret
       = (Inl OverflowError, (cl\<lparr>step_ct := ?ct\<rparr>, (w, hist @ [])))"
      by simp
    from alpa_call_overflow [OF False, of run to_device w ?x fl]
    have b: "call_loop ?G input_ids fl (i # idxs) (cl, w) past ret
       = (Inl OverflowError, (cl\<lparr>step_ct := ?ct\<rparr>, w))"
      by simp
    have "\<not> ?bounds" using False by auto
    with a b show ?thesis by (intro exI [of _ "[]"] exI conjI) auto
  next
    case True
    obtain r w1 where r: "run (cl_executable cl) w (cl_params cl) ?inp = (r, w1)"
      by (cases "run (cl_executable cl) w (cl_params cl) ?inp")
    define ev where "ev = \<lparr>xe_inputs = ?inp, xe_result = r\<rparr>"
    have lr: "logged_run run (cl_executable cl) (w, hist) (cl_params cl) ?inp
                = (r, (w1, hist @ [ev]))"
      using r by (simp add: logged_run_def ev_def)
    note a = alpa_call_run [where run = "logged_run run" and w = "(w, hist)"
        and to_device = to_device and fl = fl and cl = cl and x = ?x and past = past and r = r
        and w' = "(w1, hist @ [ev])", OF True lr]
    note b = alpa_call_run [where run = run and w = w and to_device = to_device and fl = fl
        and cl = cl and x = ?x and past = past and r = r and w' = w1, OF True r]
    have stop: ?thesis
      if f: "?F (cl, (w, hist)) ?x past fl = (Inl err, (cl\<lparr>step_ct := ?ct\<rparr>, (w1, hist @ [ev])))"
        and g: "?G (cl, w) ?x past fl = (Inl err, (cl\<lparr>step_ct := ?ct\<rparr>, w1))"
        and ng: "\<not> ?good [ev]" for err
    proof -
      have a': "call_loop ?F input_ids fl (i # idxs) (cl, (w, hist)) past ret
         = (Inl err, (cl\<lparr>step_ct := ?ct\<rparr>, (w1, hist @ [ev])))"
        using f by simp
      have b': "call_loop ?G input_ids fl (i # idxs) (cl, w) past ret
         = (Inl err, (cl\<lparr>step_ct := ?ct\<rparr>, w1))"
        using g by simp
      have "length [ev] \<le> length (i # idxs)" by simp
      moreover have "\<exists>err'. (Inl err :: error + 'e InferenceFuncOutput option) = Inl err'" by simp
      ultimately show ?thesis using a' b' ng by blast
    qed
    show ?thesis
    proof (cases r)
      case (Inl err)
      have "\<not> ?good [ev]" using Inl by (simp add: ev_def)
      with a b Inl show ?thesis by (intro stop [of err]) simp_all
    next
      case (Inr y)
      show ?thesis
      proof (cases "to_device (out_logits y) (cl_device cl)")
        case (Inl err)
        have "\<not> ?good [ev]" using Inr Inl by (simp add: ev_def)
        with a b Inr Inl show ?thesis by (intro stop [of err]) simp_all
      next
        case ok: (Inr v)
        let ?cl = "cl\<lparr>step_ct := ?ct + 1\<rparr>"
        let ?past = "Some (attention_cache y)"
        let ?ret = "Some (output_of v y)"
        have f: "?F (cl, (w, hist)) ?x past fl = (Inr (output_of v y), (?cl, (w1, hist @ [ev])))"
          using a Inr ok by simp
        have g: "?G (cl, w) ?x past fl = (Inr (output_of v y), (?cl, w1))"
          using b Inr ok by simp
        have pk: "past_key_values (output_of v y) = ?past" by (simp add: output_of_def)
        have es: "effective_step ?cl ?past = ?ct + 1" by (simp add: effective_step_def)
        have ec: "effective_cache ?cl ?past = attention_cache y" by (simp add: effective_cache_def)
        from Cons.IH [of ?cl w1 "hist @ [ev]" ?past ?ret]
        obtain res cl' w' xs where ih:
          "call_loop ?F input_ids fl idxs (?cl, (w1, hist @ [ev])) ?past ?ret
             = (res, (cl', (w', (hist @ [ev]) @ xs)))"
          "call_loop ?G input_ids fl idxs (?cl, w1) ?past ?ret = (res, (cl', w'))"
          "length xs \<le> length idxs"
          "(\<forall>e \<in> set xs. \<exists>y v. xe_result e = Inr y
                \<and> to_device (out_logits y) (cl_device ?cl) = Inr v) \<and>
           (\<forall>j < length idxs. in_int64 (effective_step ?cl ?past + int j + pad (cl_config ?cl) + 1))
           \<longrightarrow>
           (\<exists>ys. length ys = length idxs \<and> length xs = length idxs \<and>
             map xe_result xs = map Inr ys \<and>
             (idxs = [] \<longrightarrow> res = Inr ?ret \<and> cl' = ?cl) \<and>
             (idxs \<noteq> [] \<longrightarrow>
                (\<exists>v. to_device (out_logits (last ys)) (cl_device ?cl) = Inr v \<and>
                     res = Inr (Some (output_of v (last ys)))) \<and>
                cl' = ?cl\<lparr>step_ct := effective_step ?cl ?past + int (length idxs)\<rparr>) \<and>
             map (\<lambda>e. in_input_ids (xe_inputs e)) xs
               = map (\<lambda>i. col_slice input_ids i (i + 1)) idxs \<and>
             map (\<lambda>e. in_position_ids (xe_inputs e)) xs
               = map (\<lambda>(j, i). filled (col_slice input_ids i (i + 1))
                         (effective_step ?cl ?past + int j + pad (cl_config ?cl) + 1))
                     (enumerate 0 idxs) \<and>
             map (\<lambda>e. in_cache (xe_inputs e)) xs
               = take (length idxs) (effective_cache ?cl ?past # map attention_cache ys))"
          "\<not> ((\<forall>e \<in> set xs. \<exists>y v. xe_result e = Inr y
                \<and> to_device (out_logits y) (cl_device ?cl) = Inr v) \<and>
              (\<forall>j < length idxs.
                 in_int64 (effective_step ?cl ?past + int j + pad (cl_config ?cl) + 1)))
           \<longrightarrow> (\<exists>err. res = Inl err)"
          by blast
        have a': "call_loop ?F input_ids fl (i # idxs) (cl, (w, hist)) past ret
             = (res, (cl', (w', hist @ ev # xs)))"
          using f ih(1) pk by simp
        have b': "call_loop ?G input_ids fl (i # idxs) (cl, w) past ret = (res, (cl', w'))"
          using g ih(2) pk by simp
        have l: "length (ev # xs) \<le> length (i # idxs)" using ih(3) by simp
        have main: "\<exists>ys. length ys = length (i # idxs) \<and> length (ev # xs) = length (i # idxs) \<and>
             map xe_result (ev # xs) = map Inr ys \<and>
             (i # idxs = [] \<longrightarrow> res = Inr ret \<and> cl' = cl) \<and>
             (i # idxs \<noteq> [] \<longrightarrow>
                (\<exists>v. to_device (out_logits (last ys)) (cl_device cl) = Inr v \<and>
                     res = Inr (Some (output_of v (last ys)))) \<and>
                cl' = cl\<lparr>step_ct := ?ct + int (length (i # idxs))\<rparr>) \<and>
             map (\<lambda>e. in_input_ids (xe_inputs e)) (ev # xs)
               = map (\<lambda>i. col_slice input_ids i (i + 1)) (i # idxs) \<and>
             map (\<lambda>e. in_position_ids (xe_inputs e)) (ev # xs)
               = map (\<lambda>(j, i). filled (col_slice input_ids i (i + 1))
                         (?ct + int j + pad (cl_config cl) + 1))
                     (enumerate 0 (i # idxs)) \<and>
             map (\<lambda>e. in_cache (xe_inputs e)) (ev # xs)
               = take (length (i # idxs)) (effective_cache cl past # map attention_cache ys)"
          if gd: "?good (ev # xs)" and bd: ?bounds
        proof -
          have g1: "\<forall>e \<in> set xs. \<exists>y v. xe_result e = Inr y
                \<and> to_device (out_logits y) (cl_device ?cl) = Inr v"
            using gd by simp
          have b1: "\<forall>j < length idxs.
              in_int64 (effective_step ?cl ?past + int j + pad (cl_config ?cl) + 1)"
          proof (intro allI impI)
            fix j assume "j < length idxs"
            then have "Suc j < length (i # idxs)" by simp
            with bd have "in_int64 (?ct + int (Suc j) + pad (cl_config cl) + 1)" by blast
            moreover have "effective_step ?cl ?past + int j + pad (cl_config ?cl) + 1
                = ?ct + int (Suc j) + pad (cl_config cl) + 1"
              unfolding es by simp
            ultimately show "in_int64 (effective_step ?cl ?past + int j + pad (cl_config ?cl) + 1)"
              by (simp only:)
          qed
          from ih(4) g1 b1 obtain ys where o:
            "length ys = length idxs" "length xs = length idxs"
            "map xe_result xs = map Inr ys"
            "idxs = [] \<longrightarrow> res = Inr ?ret \<and> cl' = ?cl"
            "idxs \<noteq> [] \<longrightarrow>
                (\<exists>v. to_device (out_logits (last ys)) (cl_device ?cl) = Inr v \<and>
                     res = Inr (Some (output_of v (last ys)))) \<and>
                cl' = ?cl\<lparr>step_ct := effective_step ?cl ?past + int (length idxs)\<rparr>"
            "map (\<lambda>e. in_input_ids (xe_inputs e)) xs
               = map (\<lambda>i. col_slice input_ids i (i + 1)) idxs"
            "map (\<lambda>e. in_position_ids (xe_inputs e)) xs
               = map (\<lambda>(j, i). filled (col_slice input_ids i (i + 1))
                         (effective_step ?cl ?past + int j + pad (cl_config ?cl) + 1))
                     (enumerate 0 idxs)"
            "map (\<lambda>e. in_cache (xe_inputs e)) xs
               = take (length idxs) (effective_cache ?cl ?past # map attention_cache ys)"
            by blast
          have 1: "length (y # ys) = length (i # idxs)" "length (ev # xs) = length (i # idxs)"
            using o(1,2) by simp_all
          have 2: "map xe_result (ev # xs) = map Inr (y # ys)"
            using o(3) Inr by (simp add: ev_def)
          have 3: "(\<exists>v. to_device (out_logits (last (y # ys))) (cl_device cl) = Inr v \<and>
                     res = Inr (Some (output_of v (last (y # ys))))) \<and>
                cl' = cl\<lparr>step_ct := ?ct + int (length (i # idxs))\<rparr>"
          proof (cases "idxs = []")
            case True
            with o(1) have "ys = []" by simp
            with o(4) True ok show ?thesis by simp
          next
            case False
            with o(1) have "ys \<noteq> []" by auto
            with o(5) False show ?thesis by (simp add: es)
          qed
          have 4: "map (\<lambda>e. in_input_ids (xe_inputs e)) (ev # xs)
               = map (\<lambda>i. col_slice input_ids i (i + 1)) (i # idxs)"
            using o(6) by (simp add: ev_def exe_inputs_of_def)
          have 5: "map (\<lambda>e. in_position_ids (xe_inputs e)) (ev # xs)
               = map (\<lambda>(j, i). filled (col_slice input_ids i (i + 1))
                         (?ct + int j + pad (cl_config cl) + 1))
                     (enumerate 0 (i # idxs))"
          proof -
            have "map (\<lambda>e. in_position_ids (xe_inputs e)) xs
               = map (\<lambda>(j, i). filled (col_slice input_ids i (i + 1))
                         ((?ct + 1) + int j + pad (cl_config cl) + 1))
                     (enumerate 0 idxs)"
              using o(7) unfolding es by simp
            also have "\<dots> = map (\<lambda>(j, i). filled (col_slice input_ids i (i + 1))
                         (?ct + int j + pad (cl_config cl) + 1))
                     (enumerate (Suc 0) idxs)"
              by (simp add: enumerate_Suc_eq split_def algebra_simps)
            finally show ?thesis by (simp add: ev_def exe_inputs_of_def)
          qed
          have 6: "map (\<lambda>e. in_cache (xe_inputs e)) (ev # xs)
               = take (length (i # idxs)) (effective_cache cl past # map attention_cache (y # ys))"
            using o(8) by (simp add: ev_def exe_inputs_of_def ec)
          from 1 2 3 4 5 6 show ?thesis by blast
        qed
        have conv: "\<exists>err. res = Inl err" if nb: "\<not> (?good (ev # xs) \<and> ?bounds)"
        proof -
          have "\<not> ((\<forall>e \<in> set xs. \<exists>y v. xe_result e = Inr y
                \<and> to_device (out_logits y) (cl_device ?cl) = Inr v) \<and>
              (\<forall>j < length idxs.
                 in_int64 (effective_step ?cl ?past + int j + pad (cl_config ?cl) + 1)))"
          proof
            assume h: "(\<forall>e \<in> set xs. \<exists>y v. xe_result e = Inr y
                \<and> to_device (out_logits y) (cl_device ?cl) = Inr v) \<and>
              (\<forall>j < length idxs.
                 in_int64 (effective_step ?cl ?past + int j + pad (cl_config ?cl) + 1))"
            have gev: "\<exists>y v. xe_result ev = Inr y \<and> to_device (out_logits y) (cl_device cl) = Inr v"
              using Inr ok by (simp add: ev_def)
            have "?good (ev # xs)" using h gev by simp
            moreover have ?bounds
            proof (intro allI impI)
              fix j assume j: "j < length (i # idxs)"
              show "in_int64 (?ct + int j + pad (cl_config cl) + 1)"
              proof (cases j)
                case 0
                with True show ?thesis by simp
              next
                case (Suc k)
                with j have "k < length idxs" by simp
                with h have "in_int64 (effective_step ?cl ?past + int k + pad (cl_config ?cl) + 1)"
                  by blast
                moreover have "effective_step ?cl ?past + int k + pad (cl_config ?cl) + 1
                    = ?ct + int (Suc k) + pad (cl_config cl) + 1"
                  unfolding es by simp
                ultimately show ?thesis using Suc by (simp only:)
              qed
            qed
            ultimately show False using nb by blast
          qed
          with ih(5) show ?thesis by blast
        qed
        from a' b' l main conv show ?thesis by blast
      qed
    qed
  qed
qed

section \<open>Properties of \<open>get_model\<close>\<close>

lemma gpt_branch_locals:
  "gpt_branch E model_name device = Inr L \<Longrightarrow> l_executable L = None \<and> l_inference_func L \<noteq> None
     \<and> l_inference_func_config L \<noteq> None"
  by (auto simp: gpt_branch_def split: sum.splits)

lemma facebook_opt_branch_locals:
  "facebook_opt_branch E model_name device = Inr L \<Longrightarrow> l_executable L = None
     \<and> l_inference_func L \<noteq> None \<and> l_inference_func_config L \<noteq> None"
  by (auto simp: facebook_opt_branch_def split: sum.splits)

lemma construct_wrapper_unbound_executable:
  "l_executable L = None \<Longrightarrow> l_inference_func L \<noteq> None \<Longrightarrow> l_inference_func_config L \<noteq> None
     \<Longrightarrow> construct_wrapper L = Inl (UnboundLocalError ''executable'')"
  by (auto simp: construct_wrapper_def split: option.splits)

lemma get_model_gpt_raises:
  assumes "str_contains ''gpt'' model_name"
  shows "\<exists>e. get_model E model_name device dummy cluster a h = Inl e"
proof (cases "gpt_branch E model_name device")
  case (Inl e)
  with assms show ?thesis by (simp add: get_model_def)
next
  case (Inr L)
  from gpt_branch_locals [OF Inr] have "construct_wrapper L = Inl (UnboundLocalError ''executable'')"
    by (simp add: construct_wrapper_unbound_executable)
  with Inr assms show ?thesis by (simp add: get_model_def)
qed

lemma get_model_facebook_opt_raises:
  assumes "\<not> str_contains ''gpt'' model_name" and "str_contains ''facebook/opt'' model_name"
  shows "\<exists>e. get_model E model_name device dummy cluster a h = Inl e"
proof (cases "facebook_opt_branch E model_name device")
  case (Inl e)
  with assms show ?thesis by (simp add: get_model_def)
next
  case (Inr L)
  from facebook_opt_branch_locals [OF Inr]
  have "construct_wrapper L = Inl (UnboundLocalError ''executable'')"
    by (simp add: construct_wrapper_unbound_executable)
  with Inr assms show ?thesis by (simp add: get_model_def)
qed

lemma get_model_gpt_unbound_executable:
  assumes "str_contains ''gpt'' model_name" and "gpt2_from_pretrained E model_name = Inr loaded"
    and "model_to E loaded device = Inr raw_model"
  shows "get_model E model_name device dummy cluster a h = Inl (UnboundLocalError ''executable'')"
  using assms by (simp add: get_model_def gpt_branch_def construct_wrapper_def)

text \<open>
  Claim C2 does not hold of the code: \<open>executable\<close> is assigned in the \<open>alpa/opt\<close> branch
  only, so for a model name containing \<open>gpt\<close> or \<open>facebook/opt\<close> the last line of
  \<open>get_model\<close> reads an unbound local. For every such name \<open>get_model\<close> raises, whatever
  the loaders do, and for a \<open>gpt\<close> name whose model loads the exception is the
  UnboundLocalError for \<open>executable\<close>; no wrapper is returned.
\<close>

theorem get_model_single_device_raises:
  assumes "str_contains ''gpt'' model_name \<or> str_contains ''facebook/opt'' model_name"
  shows "(\<exists>e. get_model E model_name device dummy cluster support_output_attentions
                 support_output_hidden_states = Inl e) \<and>
         (\<forall>loaded raw_model. str_contains ''gpt'' model_name \<longrightarrow>
            gpt2_from_pretrained E model_name = Inr loaded \<longrightarrow>
            model_to E loaded device = Inr raw_model \<longrightarrow>
            get_model E model_name device dummy cluster support_output_attentions
                 support_output_hidden_states = Inl (UnboundLocalError ''executable''))"
proof (intro conjI allI impI)
  show "\<exists>e. get_model E model_name device dummy cluster support_output_attentions
                 support_output_hidden_states = Inl e"
  proof (cases "str_contains ''gpt'' model_name")
    case True
    then show ?thesis by (rule get_model_gpt_raises)
  next
    case False
    with assms have "str_contains ''facebook/opt'' model_name" by simp
    with False show ?thesis by (rule get_model_facebook_opt_raises)
  qed
next
  fix loaded raw_model
  assume "str_contains ''gpt'' model_name" "gpt2_from_pretrained E model_name = Inr loaded"
    "model_to E loaded device = Inr raw_model"
  then show "get_model E model_name device dummy cluster support_output_attentions
                 support_output_hidden_states = Inl (UnboundLocalError ''executable'')"
    by (rule get_model_gpt_unbound_executable)
qed

theorem get_model_single_device_raises_witness:
  "str_contains ''gpt'' ''gpt2'' \<and>
   get_model sample_env ''gpt2'' ''cpu'' False ''aws'' False False
     = Inl (UnboundLocalError ''executable'')"
proof -
  have a: "str_contains ''gpt'' ''gpt2''" by simp
  have b: "gpt2_from_pretrained sample_env ''gpt2'' = Inr ''gpt2''"
    "model_to sample_env ''gpt2'' ''cpu'' = Inr ''gpt2''"
    by (simp_all add: sample_env_def)
  from get_model_single_device_raises [of "''gpt2''" sample_env "''cpu''" False "''aws''" False False]
    a b
  show ?thesis by blast
qed

lemma construct_wrapper_all_unbound:
  "construct_wrapper \<lparr>l_inference_func = None, l_inference_func_config = None,
                      l_executable = None, l_model_config = None\<rparr>
     = Inl (UnboundLocalError ''inference_func'')"
  by (simp add: construct_wrapper_def)

lemma alpa_opt_branch_unrecognized_cluster:
  assumes "cluster \<noteq> ''aws''" "cluster \<noteq> ''mbzuai''"
  shows "\<exists>e. alpa_opt_branch E model_name device dummy cluster a h = Inl e"
  using assms by (simp add: alpa_opt_branch_def Let_def split: sum.split)

lemma alpa_opt_branch_runtime_error:
  assumes "cluster \<noteq> ''aws''" "cluster \<noteq> ''mbzuai''"
    and "alpa_init E = Inr u" "index1 (split_on CHR ''-'' model_name) = Inr part"
    and "get_config E (upper part) (max 2 (num_hosts E)) = Inr cfg"
  shows "alpa_opt_branch E model_name device dummy cluster a h
           = Inl (RuntimeError ''Unrecognized cluster.'')"
  using assms by (simp add: alpa_opt_branch_def Let_def)

text \<open>
  Claim C7. In the \<open>alpa/opt\<close> branch a cluster other than \<open>aws\<close> and \<open>mbzuai\<close> makes
  \<open>get_model\<close> raise: always some exception, and the RuntimeError \<open>Unrecognized cluster.\<close>
  as soon as \<open>alpa.init\<close>, the split of the model name and \<open>get_config\<close> have succeeded,
  before the executable is compiled or any weight is loaded (no assumption is made on
  those calls). A model name that contains none of \<open>gpt\<close>, \<open>facebook/opt\<close>, \<open>alpa/opt\<close>
  makes \<open>get_model\<close> raise UnboundLocalError for \<open>inference_func\<close>; no wrapper is returned.
\<close>

theorem get_model_configuration_errors:
  "(\<not> str_contains ''gpt'' model_name \<and> \<not> str_contains ''facebook/opt'' model_name \<and>
    str_contains ''alpa/opt'' model_name \<and> cluster \<noteq> ''aws'' \<and> cluster \<noteq> ''mbzuai'' \<longrightarrow>
      (\<exists>e. get_model E model_name device dummy cluster support_output_attentions
              support_output_hidden_states = Inl e) \<and>
      (\<forall>u part cfg. alpa_init E = Inr u \<longrightarrow>
         index1 (split_on CHR ''-'' model_name) = Inr part \<longrightarrow>
         get_config E (upper part) (max 2 (num_hosts E)) = Inr cfg \<longrightarrow>
         get_model E model_name device dummy cluster support_output_attentions
              support_output_hidden_states = Inl (RuntimeError ''Unrecognized cluster.''))) \<and>
   (\<not> str_contains ''gpt'' model_name \<and> \<not> str_contains ''facebook/opt'' model_name \<and>
    \<not> str_contains ''alpa/opt'' model_name \<longrightarrow>
      get_model E model_name device dummy cluster support_output_attentions
              support_output_hidden_states = Inl (UnboundLocalError ''inference_func''))"
proof -
  let ?g = "get_model E model_name device dummy cluster support_output_attentions
                 support_output_hidden_states"
  let ?b = "alpa_opt_branch E model_name device dummy cluster support_output_attentions
                 support_output_hidden_states"
  have 1: "\<exists>e. ?g = Inl e"
    if "\<not> str_contains ''gpt'' model_name" "\<not> str_contains ''facebook/opt'' model_name"
      "str_contains ''alpa/opt'' model_name" "cluster \<noteq> ''aws''" "cluster \<noteq> ''mbzuai''"
  proof -
    from alpa_opt_branch_unrecognized_cluster [OF that(4,5)]
    obtain e where "?b = Inl e" by blast
    with that show ?thesis by (simp add: get_model_def)
  qed
  have 2: "?g = Inl (RuntimeError ''Unrecognized cluster.'')"
    if "\<not> str_contains ''gpt'' model_name" "\<not> str_contains ''facebook/opt'' model_name"
      "str_contains ''alpa/opt'' model_name" "cluster \<noteq> ''aws''" "cluster \<noteq> ''mbzuai''"
      "alpa_init E = Inr u" "index1 (split_on CHR ''-'' model_name) = Inr part"
      "get_config E (upper part) (max 2 (num_hosts E)) = Inr cfg" for u part cfg
  proof -
    from alpa_opt_branch_runtime_error [OF that(4-8)]
    have "?b = Inl (RuntimeError ''Unrecognized cluster.'')" .
    with that show ?thesis by (simp add: get_model_def)
  qed
  have 3: "?g = Inl (UnboundLocalError ''inference_func'')"
    if "\<not> str_contains ''gpt'' model_name" "\<not> str_contains ''facebook/opt'' model_name"
      "\<not> str_contains ''alpa/opt'' model_name"
    using that by (simp add: get_model_def construct_wrapper_all_unbound)
  from 1 2 3 show ?thesis by blast
qed

lemma sample_name_parts:
  "\<not> str_contains ''gpt'' ''alpa/opt-125m''" "\<not> str_contains ''facebook/opt'' ''alpa/opt-125m''"
  "str_contains ''alpa/opt'' ''alpa/opt-125m''"
  "index1 (split_on CHR ''-'' ''alpa/opt-125m'') = Inr ''125m''"
  "upper ''125m'' = ''125M''"
  by (simp_all add: index1_def upper_def upper_char_def)

lemma bert_name_parts:
  "\<not> str_contains ''gpt'' ''bert-base''" "\<not> str_contains ''facebook/opt'' ''bert-base''"
  "\<not> str_contains ''alpa/opt'' ''bert-base''"
  by simp_all

theorem get_model_configuration_errors_witness:
  "(\<not> str_contains ''gpt'' ''alpa/opt-125m'' \<and> \<not> str_contains ''facebook/opt'' ''alpa/opt-125m'' \<and>
    str_contains ''alpa/opt'' ''alpa/opt-125m'' \<and> ''gcp'' \<noteq> ''aws'' \<and> ''gcp'' \<noteq> ''mbzuai'') \<and>
   get_model sample_env ''alpa/opt-125m'' ''cuda'' True ''gcp'' False False
     = Inl (RuntimeError ''Unrecognized cluster.'') \<and>
   (\<not> str_contains ''gpt'' ''bert-base'' \<and> \<not> str_contains ''facebook/opt'' ''bert-base'' \<and>
    \<not> str_contains ''alpa/opt'' ''bert-base'') \<and>
   get_model sample_env ''bert-base'' ''cuda'' True ''aws'' False False
     = Inl (UnboundLocalError ''inference_func'')"
proof -
  have e: "alpa_init sample_env = Inr ()"
    "get_config sample_env (upper ''125m'') (max 2 (num_hosts sample_env)) = Inr \<lparr>pad = 1\<rparr>"
    by (simp_all add: sample_env_def)
  have c: "''gcp'' \<noteq> ''aws''" "''gcp'' \<noteq> ''mbzuai''" by simp_all
  from get_model_configuration_errors
         [of "''alpa/opt-125m''" "''gcp''" sample_env "''cuda''" True False False]
    sample_name_parts e c
  have 1: "get_model sample_env ''alpa/opt-125m'' ''cuda'' True ''gcp'' False False
     = Inl (RuntimeError ''Unrecognized cluster.'')" by blast
  from get_model_configuration_errors
         [of "''bert-base''" "''aws''" sample_env "''cuda''" True False False]
    bert_name_parts
  have 2: "get_model sample_env ''bert-base'' ''cuda'' True ''aws'' False False
     = Inl (UnboundLocalError ''inference_func'')" by blast
  from 1 2 sample_name_parts bert_name_parts c show ?thesis by blast
qed

lemma get_model_alpa_sample:
  "get_model sample_env ''alpa/opt-125m'' ''cuda'' True ''aws'' False False
     = Inr \<lparr>inference_func = AlpaFunc \<lparr>cl_executable = 0, cl_params = 0, cl_init_cache = [[0]],
                      cl_config = \<lparr>pad = 1\<rparr>, cl_device = ''cuda'', step_ct = 0\<rparr>,
            config = FuncConfig InferenceFuncConfig_defaults,
            main_input_name = ''input_ids'', executable = 0, model_config = OPTConfig \<lparr>pad = 1\<rparr>\<rparr>"
  by (simp add: get_model_def alpa_opt_branch_def sample_env_def Let_def index1_def upper_def
        upper_char_def
        construct_wrapper_def)

lemma alpa_opt_branch_closure:
  "alpa_opt_branch E model_name device dummy cluster a h = Inr L \<Longrightarrow>
     \<exists>cl. l_inference_func L = Some (AlpaFunc cl) \<and> step_ct cl = 0 \<and>
          l_executable L = Some (cl_executable cl) \<and> cl_device cl = device \<and>
          init_cache_dis_array E (cl_executable cl) (cl_config cl) 1 dummy = Inr (cl_init_cache cl) \<and>
          l_inference_func_config L = Some (FuncConfig InferenceFuncConfig_defaults) \<and>
          l_model_config L = Some (OPTConfig (cl_config cl))"
  by (auto simp: alpa_opt_branch_def Let_def split: sum.splits if_splits prod.splits)

text \<open>Whatever \<open>get_model\<close> returns is the distributed wrapper, with its counter at zero.\<close>

lemma get_model_returns_alpa_closure:
  assumes "get_model E model_name device dummy cluster a h = Inr W"
  shows "\<exists>cl. inference_func W = AlpaFunc cl \<and> step_ct cl = 0 \<and> executable W = cl_executable cl \<and>
          init_cache_dis_array E (cl_executable cl) (cl_config cl) 1 dummy = Inr (cl_init_cache cl) \<and>
          model_config W = OPTConfig (cl_config cl) \<and> cl_device cl = device"
proof -
  let ?g = "get_model E model_name device dummy cluster a h"
  from get_model_gpt_raises [of model_name E device dummy cluster a h] assms
  have ng1: "\<not> str_contains ''gpt'' model_name" by auto
  from get_model_facebook_opt_raises [of model_name E device dummy cluster a h] ng1 assms
  have ng2: "\<not> str_contains ''facebook/opt'' model_name" by auto
  note ng = ng1 ng2
  have al: "str_contains ''alpa/opt'' model_name"
  proof (rule ccontr)
    assume "\<not> str_contains ''alpa/opt'' model_name"
    with ng have "?g = Inl (UnboundLocalError ''inference_func'')"
      by (simp add: get_model_def construct_wrapper_all_unbound)
    with assms show False by simp
  qed
  from ng al assms obtain L where
    L: "alpa_opt_branch E model_name device dummy cluster a h = Inr L"
    and W: "construct_wrapper L = Inr W"
    by (auto simp: get_model_def split: sum.splits)
  from alpa_opt_branch_closure [OF L] obtain cl where
    cl: "l_inference_func L = Some (AlpaFunc cl)" "step_ct cl = 0"
      "l_executable L = Some (cl_executable cl)"
      "init_cache_dis_array E (cl_executable cl) (cl_config cl) 1 dummy = Inr (cl_init_cache cl)"
      "l_inference_func_config L = Some (FuncConfig InferenceFuncConfig_defaults)"
      "l_model_config L = Some (OPTConfig (cl_config cl))" "cl_device cl = device"
    by blast
  from W cl have "inference_func W = AlpaFunc cl" "executable W = cl_executable cl"
    "model_config W = OPTConfig (cl_config cl)"
    by (auto simp: construct_wrapper_def)
  with cl show ?thesis by blast
qed

section \<open>Episodes of the distributed backend\<close>

lemma enumerate_upt_same: "enumerate 0 [0 ..< n] = map (\<lambda>i. (i, i)) [0 ..< n]"
  by (simp add: enumerate_eq_zip zip_same_conv_map)

lemma position_bounds:
  assumes "1 \<le> n"
  shows "(\<forall>j < n. in_int64 (c + int j + p + 1))
           \<longleftrightarrow> (- (2 ^ 63) \<le> c + p + 1 \<and> c + int n + p < 2 ^ 63)"
proof
  assume h: "\<forall>j < n. in_int64 (c + int j + p + 1)"
  from assms have z: "0 < n" and m: "n - 1 < n" by simp_all
  from h z have lo: "in_int64 (c + int 0 + p + 1)" by blast
  from h m have hi: "in_int64 (c + int (n - 1) + p + 1)" by blast
  from assms have "int (n - 1) = int n - 1" by (simp add: of_nat_diff)
  with lo hi show "- (2 ^ 63) \<le> c + p + 1 \<and> c + int n + p < 2 ^ 63"
    by (simp add: in_int64_def)
next
  assume h: "- (2 ^ 63) \<le> c + p + 1 \<and> c + int n + p < 2 ^ 63"
  show "\<forall>j < n. in_int64 (c + int j + p + 1)"
  proof (intro allI impI)
    fix j assume "j < n"
    then have "int j + 1 \<le> int n" by simp
    with h show "in_int64 (c + int j + p + 1)" by (simp add: in_int64_def)
  qed
qed

lemma alpa_episode_run:
  assumes "1 \<le> shape1 input_ids"
  shows "\<exists>res cl' w' xs.
     wrapped_call (alpa_inference_func (logged_run run) to_device) (cl, (w, hist)) input_ids past
         out_attn out_hidden return_dict = (res, (cl', (w', hist @ xs))) \<and>
     wrapped_call (alpa_inference_func run to_device) (cl, w) input_ids past
         out_attn out_hidden return_dict = (res, (cl', w')) \<and>
     length xs \<le> shape1 input_ids \<and>
     (((\<forall>e \<in> set xs. \<exists>y v. xe_result e = Inr y \<and> to_device (out_logits y) (cl_device cl) = Inr v) \<and>
       - (2 ^ 63) \<le> effective_step cl past + pad (cl_config cl) + 1 \<and>
       effective_step cl past + int (shape1 input_ids) + pad (cl_config cl) < 2 ^ 63)
      \<longleftrightarrow> (\<exists>out. res = Inr out)) \<and>
     ((\<exists>out. res = Inr out) \<longrightarrow>
        (\<exists>ys. length ys = shape1 input_ids \<and> length xs = shape1 input_ids \<and>
           map xe_result xs = map Inr ys \<and>
           (\<exists>v. to_device (out_logits (last ys)) (cl_device cl) = Inr v \<and>
                res = Inr (output_of v (last ys))) \<and>
           cl' = cl\<lparr>step_ct := effective_step cl past + int (shape1 input_ids)\<rparr> \<and>
           map (\<lambda>e. in_input_ids (xe_inputs e)) xs
             = map (\<lambda>i. input_ids\<lparr>cols := [cols input_ids ! i]\<rparr>) [0 ..< shape1 input_ids] \<and>
           map (\<lambda>e. in_position_ids (xe_inputs e)) xs
             = map (\<lambda>i. filled (input_ids\<lparr>cols := [cols input_ids ! i]\<rparr>)
                            (effective_step cl past + int i + pad (cl_config cl) + 1))
                   [0 ..< shape1 input_ids] \<and>
           map (\<lambda>e. in_cache (xe_inputs e)) xs
             = take (shape1 input_ids) (effective_cache cl past # map attention_cache ys)))"
proof -
  let ?n = "shape1 input_ids"
  let ?fl = "\<lparr>output_attentions = out_attn, output_hidden_states = out_hidden\<rparr>"
  let ?ct = "effective_step cl past"
  let ?pad = "pad (cl_config cl)"
  let ?F = "alpa_inference_func (logged_run run) to_device"
  let ?G = "alpa_inference_func run to_device"
  have ne: "[0 ..< ?n] \<noteq> []" using assms by simp
  from alpa_loop_run [of run to_device input_ids ?fl "[0 ..< ?n]" cl w hist past None]
  obtain res0 cl' w' xs where h:
    "call_loop ?F input_ids ?fl [0 ..< ?n] (cl, (w, hist)) past None
       = (res0, (cl', (w', hist @ xs)))"
    "call_loop ?G input_ids ?fl [0 ..< ?n] (cl, w) past None = (res0, (cl', w'))"
    "length xs \<le> ?n"
    "(\<forall>e \<in> set xs. \<exists>y v. xe_result e = Inr y \<and> to_device (out_logits y) (cl_device cl) = Inr v) \<and>
     (\<forall>j < ?n. in_int64 (?ct + int j + ?pad + 1)) \<longrightarrow>
        (\<exists>ys. length ys = ?n \<and> length xs = ?n \<and>
           map xe_result xs = map Inr ys \<and>
           ([0 ..< ?n] = [] \<longrightarrow> res0 = Inr None \<and> cl' = cl) \<and>
           ([0 ..< ?n] \<noteq> [] \<longrightarrow>
              (\<exists>v. to_device (out_logits (last ys)) (cl_device cl) = Inr v \<and>
                   res0 = Inr (Some (output_of v (last ys)))) \<and>
              cl' = cl\<lparr>step_ct := ?ct + int ?n\<rparr>) \<and>
           map (\<lambda>e. in_input_ids (xe_inputs e)) xs
             = map (\<lambda>i. col_slice input_ids i (i + 1)) [0 ..< ?n] \<and>
           map (\<lambda>e. in_position_ids (xe_inputs e)) xs
             = map (\<lambda>(j, i). filled (col_slice input_ids i (i + 1)) (?ct + int j + ?pad + 1))
                   (enumerate 0 [0 ..< ?n]) \<and>
           map (\<lambda>e. in_cache (xe_inputs e)) xs
             = take ?n (effective_cache cl past # map attention_cache ys))"
    "\<not> ((\<forall>e \<in> set xs. \<exists>y v. xe_result e = Inr y
                \<and> to_device (out_logits y) (cl_device cl) = Inr v) \<and>
         (\<forall>j < ?n. in_int64 (?ct + int j + ?pad + 1)))
        \<longrightarrow> (\<exists>err. res0 = Inl err)"
    unfolding length_upt diff_zero by blast
  define res where "res = (case res0 of Inl e \<Rightarrow> Inl e
                           | Inr None \<Rightarrow> Inl (UnboundLocalError ''ret'')
                           | Inr (Some r) \<Rightarrow> Inr r)"
  have a: "wrapped_call ?F (cl, (w, hist)) input_ids past out_attn out_hidden return_dict
             = (res, (cl', (w', hist @ xs)))"
    using h(1) by (simp add: wrapped_call_def res_def split: sum.split option.split)
  have b: "wrapped_call ?G (cl, w) input_ids past out_attn out_hidden return_dict
             = (res, (cl', w'))"
    using h(2) by (simp add: wrapped_call_def res_def split: sum.split option.split)
  let ?good = "\<forall>e \<in> set xs. \<exists>y v. xe_result e = Inr y
                  \<and> to_device (out_logits y) (cl_device cl) = Inr v"
  let ?bnd = "- (2 ^ 63) \<le> ?ct + ?pad + 1 \<and> ?ct + int ?n + ?pad < 2 ^ 63"
  note pb = position_bounds [OF assms, of ?ct ?pad]
  have full: "\<exists>ys. length ys = ?n \<and> length xs = ?n \<and>
           map xe_result xs = map Inr ys \<and>
           (\<exists>v. to_device (out_logits (last ys)) (cl_device cl) = Inr v \<and>
                res = Inr (output_of v (last ys))) \<and>
           cl' = cl\<lparr>step_ct := ?ct + int ?n\<rparr> \<and>
           map (\<lambda>e. in_input_ids (xe_inputs e)) xs
             = map (\<lambda>i. input_ids\<lparr>cols := [cols input_ids ! i]\<rparr>) [0 ..< ?n] \<and>
           map (\<lambda>e. in_position_ids (xe_inputs e)) xs
             = map (\<lambda>i. filled (input_ids\<lparr>cols := [cols input_ids ! i]\<rparr>)
                            (?ct + int i + ?pad + 1)) [0 ..< ?n] \<and>
           map (\<lambda>e. in_cache (xe_inputs e)) xs
             = take ?n (effective_cache cl past # map attention_cache ys)"
    if gb: "?good \<and> ?bnd"
  proof -
    from gb pb have "?good \<and> (\<forall>j < ?n. in_int64 (?ct + int j + ?pad + 1))" by blast
    with h(4) ne obtain ys v where o:
      "length ys = ?n" "length xs = ?n" "map xe_result xs = map Inr ys"
      "to_device (out_logits (last ys)) (cl_device cl) = Inr v"
      "res0 = Inr (Some (output_of v (last ys)))"
      "cl' = cl\<lparr>step_ct := ?ct + int ?n\<rparr>"
      "map (\<lambda>e. in_input_ids (xe_inputs e)) xs
             = map (\<lambda>i. col_slice input_ids i (i + 1)) [0 ..< ?n]"
      "map (\<lambda>e. in_position_ids (xe_inputs e)) xs
             = map (\<lambda>(j, i). filled (col_slice input_ids i (i + 1)) (?ct + int j + ?pad + 1))
                   (enumerate 0 [0 ..< ?n])"
      "map (\<lambda>e. in_cache (xe_inputs e)) xs
             = take ?n (effective_cache cl past # map attention_cache ys)"
      by blast
    have r: "res = Inr (output_of v (last ys))" using o(5) by (simp add: res_def)
    have i: "map (\<lambda>e. in_input_ids (xe_inputs e)) xs
             = map (\<lambda>i. input_ids\<lparr>cols := [cols input_ids ! i]\<rparr>) [0 ..< ?n]"
      using o(7) single_positions by simp
    have "map (\<lambda>e. in_position_ids (xe_inputs e)) xs
             = map (\<lambda>i. filled (col_slice input_ids i (i + 1)) (?ct + int i + ?pad + 1))
                   [0 ..< ?n]"
      using o(8) by (simp add: enumerate_upt_same comp_def)
    also have "\<dots> = map (\<lambda>i. filled (input_ids\<lparr>cols := [cols input_ids ! i]\<rparr>)
                            (?ct + int i + ?pad + 1)) [0 ..< ?n]"
    proof (rule map_cong)
      fix i assume "i \<in> set [0 ..< ?n]"
      then have "i < ?n" by simp
      then show "filled (col_slice input_ids i (i + 1)) (?ct + int i + ?pad + 1)
          = filled (input_ids\<lparr>cols := [cols input_ids ! i]\<rparr>) (?ct + int i + ?pad + 1)"
        by (simp only: col_slice_single)
    qed simp
    finally have p: "map (\<lambda>e. in_position_ids (xe_inputs e)) xs
             = map (\<lambda>i. filled (input_ids\<lparr>cols := [cols input_ids ! i]\<rparr>)
                            (?ct + int i + ?pad + 1)) [0 ..< ?n]" .
    from o(1,2,3,4,6,9) r i p show ?thesis by blast
  qed
  have fwd: "\<exists>out. res = Inr out" if "?good \<and> ?bnd"
    using full [OF that] by blast
  have bwd: "?good \<and> ?bnd" if "\<exists>out. res = Inr out"
  proof (rule ccontr)
    assume "\<not> (?good \<and> ?bnd)"
    with pb have "\<not> (?good \<and> (\<forall>j < ?n. in_int64 (?ct + int j + ?pad + 1)))" by blast
    with h(5) obtain err where "res0 = Inl err" by blast
    then have "res = Inl err" by (simp add: res_def)
    with that show False by auto
  qed
  have eq: "(?good \<and> ?bnd) \<longleftrightarrow> (\<exists>out. res = Inr out)" using fwd bwd by blast
  have full': "(\<exists>out. res = Inr out) \<longrightarrow> (\<exists>ys. length ys = ?n \<and> length xs = ?n \<and>
           map xe_result xs = map Inr ys \<and>
           (\<exists>v. to_device (out_logits (last ys)) (cl_device cl) = Inr v \<and>
                res = Inr (output_of v (last ys))) \<and>
           cl' = cl\<lparr>step_ct := ?ct + int ?n\<rparr> \<and>
           map (\<lambda>e. in_input_ids (xe_inputs e)) xs
             = map (\<lambda>i. input_ids\<lparr>cols := [cols input_ids ! i]\<rparr>) [0 ..< ?n] \<and>
           map (\<lambda>e. in_position_ids (xe_inputs e)) xs
             = map (\<lambda>i. filled (input_ids\<lparr>cols := [cols input_ids ! i]\<rparr>)
                            (?ct + int i + ?pad + 1)) [0 ..< ?n] \<and>
           map (\<lambda>e. in_cache (xe_inputs e)) xs
             = take ?n (effective_cache cl past # map attention_cache ys))"
    using full bwd by blast
  show ?thesis
    apply (rule exI [of _ res], rule exI [of _ cl'], rule exI [of _ w'], rule exI [of _ xs])
    using a b h(3) eq full' by blast
qed

lemma effective_step_None: "effective_step cl None = 0"
  by (simp add: effective_step_def)

lemma effective_step_Some: "effective_step cl (Some c) = step_ct cl"
  by (simp add: effective_step_def)

lemma exe_inputs_of_None:
  "exe_inputs_of cl x None
     = \<lparr>in_input_ids = x, in_position_ids = filled x (0 + pad (cl_config cl) + 1),
        in_cache = cl_init_cache cl\<rparr>"
  by (simp add: exe_inputs_of_def effective_step_def effective_cache_def)

lemma filled_entries:
  "dim0 (filled t v) = dim0 t \<and> cols (filled t v) = map (\<lambda>c. replicate (length c) v) (cols t)"
  by (simp add: filled_def map_replicate_const)

lemma exe_inputs_of_raw:
  "exe_inputs_of cl x past
     = \<lparr>in_input_ids = x,
        in_position_ids = filled x ((case past of None \<Rightarrow> 0 | Some c \<Rightarrow> step_ct cl)
                                      + pad (cl_config cl) + 1),
        in_cache = (case past of None \<Rightarrow> cl_init_cache cl | Some c \<Rightarrow> c)\<rparr>"
  by (simp add: exe_inputs_of_def effective_step_def effective_cache_def)

lemma effective_step_raw:
  "effective_step cl past = (case past of None \<Rightarrow> 0 | Some c \<Rightarrow> step_ct cl)"
  by (simp add: effective_step_def)

lemma sample_episode_history:
  "snd (snd (snd (wrapped_call (alpa_inference_func (logged_run appending_run) sample_to_device)
                    (sample_closure, (0, [])) \<lparr>dim0 = 1, cols = [[5], [7], [9]]\<rparr>
                    None None None None)))
     = [\<lparr>xe_inputs = \<lparr>in_input_ids = \<lparr>dim0 = 1, cols = [[5]]\<rparr>,
                      in_position_ids = \<lparr>dim0 = 1, cols = [[2]]\<rparr>, in_cache = [[0]]\<rparr>,
         xe_result = Inr \<lparr>out_logits = [2], attention_cache = [[0], [5]],
                          out_hidden_states = None, out_attentions = None\<rparr>\<rparr>,
        \<lparr>xe_inputs = \<lparr>in_input_ids = \<lparr>dim0 = 1, cols = [[7]]\<rparr>,
                      in_position_ids = \<lparr>dim0 = 1, cols = [[3]]\<rparr>, in_cache = [[0], [5]]\<rparr>,
         xe_result = Inr \<lparr>out_logits = [3], attention_cache = [[0], [5], [7]],
                          out_hidden_states = None, out_attentions = None\<rparr>\<rparr>,
        \<lparr>xe_inputs = \<lparr>in_input_ids = \<lparr>dim0 = 1, cols = [[9]]\<rparr>,
                      in_position_ids = \<lparr>dim0 = 1, cols = [[4]]\<rparr>, in_cache = [[0], [5], [7]]\<rparr>,
         xe_result = Inr \<lparr>out_logits = [4], attention_cache = [[0], [5], [7], [9]],
                          out_hidden_states = None, out_attentions = None\<rparr>\<rparr>]"
  by (simp add: wrapped_call_def shape1_def upt_rec alpa_inference_func_def logged_run_def
        appending_run_def sample_to_device_def sample_closure_def col_slice_def full_like_def
        filled_def in_int64_def)

lemma sample_episode_good:
  "\<forall>e \<in> set (snd (snd (snd (wrapped_call
        (alpa_inference_func (logged_run appending_run) sample_to_device)
        (sample_closure, (0, [])) \<lparr>dim0 = 1, cols = [[5], [7], [9]]\<rparr> None None None None)))).
     \<exists>y v. xe_result e = Inr y \<and> sample_to_device (out_logits y) (cl_device sample_closure) = Inr v"
  unfolding sample_episode_history by (simp add: sample_to_device_def sample_closure_def)

lemma sample_episode_results:
  "map (\<lambda>e. isl (xe_result e))
     (snd (snd (snd (wrapped_call (alpa_inference_func (logged_run appending_run) sample_to_device)
                       (sample_closure, (0, [])) \<lparr>dim0 = 1, cols = [[5], [7], [9]]\<rparr>
                       None None None None))))
     = [False, False, False]"
  unfolding sample_episode_history by simp

lemma sample_episode_transfers:
  "map (\<lambda>e. sample_to_device (out_logits (projr (xe_result e))) (cl_device sample_closure))
     (snd (snd (snd (wrapped_call (alpa_inference_func (logged_run appending_run) sample_to_device)
                       (sample_closure, (0, [])) \<lparr>dim0 = 1, cols = [[5], [7], [9]]\<rparr>
                       None None None None))))
     = [Inr [2], Inr [3], Inr [4]]"
  unfolding sample_episode_history by (simp add: sample_to_device_def sample_closure_def)

lemma sample_bounds:
  "- (2 ^ 63) \<le> pad (cl_config sample_closure) + 1 \<and>
   int (shape1 \<lparr>dim0 = 1, cols = [[5], [7], [9]]\<rparr>) + pad (cl_config sample_closure) < 2 ^ 63"
  by (simp add: sample_closure_def shape1_def)

text \<open>
  Claim C4. A call with \<open>past_key_values = None\<close> sets the counter to zero and passes the
  initial cache of the closure to the executable, with position identifiers built from
  step 0; \<open>np.full_like\<close> raises OverflowError before the executable is called when the
  identifier is outside int64. A call that returns leaves the counter one above the
  counter it ran with (zero after a reset); a call that raises, in the executable or
  while the logits are moved to the device, leaves the counter where it ran with. The
  \<open>K = shape[1] \<ge> 1\<close> single-token calls that \<open>__call__\<close> issues from no cache all return
  exactly when every executable call of the run returned, its logits could be moved to the
  device, and the position identifiers fit int64; then the executable was called \<open>K\<close>
  times and the counter is \<open>K\<close> (continuing from a cache, the counter has advanced by
  \<open>K\<close>). The closure \<open>get_model\<close> returns starts at counter zero, with the cache
  \<open>init_cache_dis_array\<close> built from the configuration for batch size 1.
\<close>

theorem step_counter_counts_calls:
  "(\<exists>res ct' w' xs.
      alpa_inference_func (logged_run run) to_device (cl, (w, hist)) x None fl
        = (res, (cl\<lparr>step_ct := ct'\<rparr>, (w', hist @ xs))) \<and>
      alpa_inference_func run to_device (cl, w) x None fl = (res, (cl\<lparr>step_ct := ct'\<rparr>, w')) \<and>
      (in_int64 (0 + pad (cl_config cl) + 1) \<longrightarrow>
         (\<exists>r. xs = [\<lparr>xe_inputs = \<lparr>in_input_ids = x,
                                   in_position_ids = filled x (0 + pad (cl_config cl) + 1),
                                   in_cache = cl_init_cache cl\<rparr>,
                      xe_result = r\<rparr>])) \<and>
      (\<not> in_int64 (0 + pad (cl_config cl) + 1) \<longrightarrow> xs = [] \<and> res = Inl OverflowError) \<and>
      ((\<exists>out. res = Inr out) \<longrightarrow> ct' = 1) \<and>
      ((\<exists>e. res = Inl e) \<longrightarrow> ct' = 0)) \<and>
   (\<exists>res ct' w'.
      alpa_inference_func run to_device (cl, w) x (Some c) fl = (res, (cl\<lparr>step_ct := ct'\<rparr>, w')) \<and>
      ((\<exists>out. res = Inr out) \<longrightarrow> ct' = step_ct cl + 1) \<and>
      ((\<exists>e. res = Inl e) \<longrightarrow> ct' = step_ct cl)) \<and>
   (1 \<le> shape1 input_ids \<longrightarrow>
      (\<exists>res cl' w' xs.
         wrapped_call (alpa_inference_func (logged_run run) to_device) (cl, (w, [])) input_ids None
             out_attn out_hidden return_dict = (res, (cl', (w', xs))) \<and>
         wrapped_call (alpa_inference_func run to_device) (cl, w) input_ids None
             out_attn out_hidden return_dict = (res, (cl', w')) \<and>
         (((\<forall>e \<in> set xs. \<exists>y v. xe_result e = Inr y
                 \<and> to_device (out_logits y) (cl_device cl) = Inr v) \<and>
           - (2 ^ 63) \<le> pad (cl_config cl) + 1 \<and>
           int (shape1 input_ids) + pad (cl_config cl) < 2 ^ 63)
          \<longleftrightarrow> (\<exists>out. res = Inr out)) \<and>
         ((\<exists>out. res = Inr out) \<longrightarrow>
            length xs = shape1 input_ids \<and> cl' = cl\<lparr>step_ct := int (shape1 input_ids)\<rparr>)) \<and>
      (\<exists>res cl' w'.
         wrapped_call (alpa_inference_func run to_device) (cl, w) input_ids (Some c)
             out_attn out_hidden return_dict = (res, (cl', w')) \<and>
         ((\<exists>out. res = Inr out) \<longrightarrow>
            cl' = cl\<lparr>step_ct := step_ct cl + int (shape1 input_ids)\<rparr>))) \<and>
   (\<forall>W. get_model E model_name device dummy cluster support_output_attentions
            support_output_hidden_states = Inr W \<longrightarrow>
        (\<exists>cl0. inference_func W = AlpaFunc cl0 \<and> step_ct cl0 = 0 \<and>
           init_cache_dis_array E (cl_executable cl0) (cl_config cl0) 1 dummy
             = Inr (cl_init_cache cl0)))"
proof -
  from alpa_call_outcome [of run to_device cl w hist x None fl]
  have 1: "\<exists>res ct' w' xs.
      alpa_inference_func (logged_run run) to_device (cl, (w, hist)) x None fl
        = (res, (cl\<lparr>step_ct := ct'\<rparr>, (w', hist @ xs))) \<and>
      alpa_inference_func run to_device (cl, w) x None fl = (res, (cl\<lparr>step_ct := ct'\<rparr>, w')) \<and>
      (in_int64 (0 + pad (cl_config cl) + 1) \<longrightarrow>
         (\<exists>r. xs = [\<lparr>xe_inputs = \<lparr>in_input_ids = x,
                                   in_position_ids = filled x (0 + pad (cl_config cl) + 1),
                                   in_cache = cl_init_cache cl\<rparr>,
                      xe_result = r\<rparr>])) \<and>
      (\<not> in_int64 (0 + pad (cl_config cl) + 1) \<longrightarrow> xs = [] \<and> res = Inl OverflowError) \<and>
      ((\<exists>out. res = Inr out) \<longrightarrow> ct' = 1) \<and>
      ((\<exists>e. res = Inl e) \<longrightarrow> ct' = 0)"
    unfolding effective_step_None exe_inputs_of_None by (elim exE conjE) (intro exI conjI, auto)
  from alpa_call_outcome [of run to_device cl w hist x "Some c" fl]
  have 2: "\<exists>res ct' w'.
      alpa_inference_func run to_device (cl, w) x (Some c) fl = (res, (cl\<lparr>step_ct := ct'\<rparr>, w')) \<and>
      ((\<exists>out. res = Inr out) \<longrightarrow> ct' = step_ct cl + 1) \<and>
      ((\<exists>e. res = Inl e) \<longrightarrow> ct' = step_ct cl)"
    unfolding effective_step_Some by (elim exE conjE) (intro exI conjI, auto)
  have 3: "\<exists>res cl' w' xs.
         wrapped_call (alpa_inference_func (logged_run run) to_device) (cl, (w, [])) input_ids None
             out_attn out_hidden return_dict = (res, (cl', (w', xs))) \<and>
         wrapped_call (alpa_inference_func run to_device) (cl, w) input_ids None
             out_attn out_hidden return_dict = (res, (cl', w')) \<and>
         (((\<forall>e \<in> set xs. \<exists>y v. xe_result e = Inr y
                 \<and> to_device (out_logits y) (cl_device cl) = Inr v) \<and>
           - (2 ^ 63) \<le> pad (cl_config cl) + 1 \<and>
           int (shape1 input_ids) + pad (cl_config cl) < 2 ^ 63)
          \<longleftrightarrow> (\<exists>out. res = Inr out)) \<and>
         ((\<exists>out. res = Inr out) \<longrightarrow>
            length xs = shape1 input_ids \<and> cl' = cl\<lparr>step_ct := int (shape1 input_ids)\<rparr>)"
    if n: "1 \<le> shape1 input_ids"
  proof -
    from alpa_episode_run [OF n, of run to_device cl w "[]" None out_attn out_hidden return_dict]
    obtain res cl' w' xs where h:
      "wrapped_call (alpa_inference_func (logged_run run) to_device) (cl, (w, [])) input_ids None
             out_attn out_hidden return_dict = (res, (cl', (w', xs)))"
      "wrapped_call (alpa_inference_func run to_device) (cl, w) input_ids None
             out_attn out_hidden return_dict = (res, (cl', w'))"
      "((\<forall>e \<in> set xs. \<exists>y v. xe_result e = Inr y
                 \<and> to_device (out_logits y) (cl_device cl) = Inr v) \<and>
           - (2 ^ 63) \<le> 0 + pad (cl_config cl) + 1 \<and>
           0 + int (shape1 input_ids) + pad (cl_config cl) < 2 ^ 63)
          \<longleftrightarrow> (\<exists>out. res = Inr out)"
      "(\<exists>out. res = Inr out) \<longrightarrow>
         length xs = shape1 input_ids \<and> cl' = cl\<lparr>step_ct := 0 + int (shape1 input_ids)\<rparr>"
      unfolding effective_step_None append_Nil by blast
    from h(3) have e: "((\<forall>e \<in> set xs. \<exists>y v. xe_result e = Inr y
                 \<and> to_device (out_logits y) (cl_device cl) = Inr v) \<and>
           - (2 ^ 63) \<le> pad (cl_config cl) + 1 \<and>
           int (shape1 input_ids) + pad (cl_config cl) < 2 ^ 63)
          \<longleftrightarrow> (\<exists>out. res = Inr out)" by simp
    from h(4) have f: "(\<exists>out. res = Inr out) \<longrightarrow>
         length xs = shape1 input_ids \<and> cl' = cl\<lparr>step_ct := int (shape1 input_ids)\<rparr>" by simp
    from h(1,2) e f show ?thesis by blast
  qed
  have 4: "\<exists>res cl' w'.
         wrapped_call (alpa_inference_func run to_device) (cl, w) input_ids (Some c)
             out_attn out_hidden return_dict = (res, (cl', w')) \<and>
         ((\<exists>out. res = Inr out) \<longrightarrow>
            cl' = cl\<lparr>step_ct := step_ct cl + int (shape1 input_ids)\<rparr>)"
    if n: "1 \<le> shape1 input_ids"
  proof -
    from alpa_episode_run [OF n, of run to_device cl w "[]" "Some c" out_attn out_hidden
        return_dict]
    obtain res cl' w' where h:
      "wrapped_call (alpa_inference_func run to_device) (cl, w) input_ids (Some c)
             out_attn out_hidden return_dict = (res, (cl', w'))"
      "(\<exists>out. res = Inr out) \<longrightarrow>
         cl' = cl\<lparr>step_ct := step_ct cl + int (shape1 input_ids)\<rparr>"
      unfolding effective_step_Some by blast
    then show ?thesis by blast
  qed
  have 5: "\<exists>cl0. inference_func W = AlpaFunc cl0 \<and> step_ct cl0 = 0 \<and>
           init_cache_dis_array E (cl_executable cl0) (cl_config cl0) 1 dummy
             = Inr (cl_init_cache cl0)"
    if "get_model E model_name device dummy cluster support_output_attentions
                  support_output_hidden_states = Inr W" for W
    using get_model_returns_alpa_closure [OF that] by blast
  from 1 2 3 4 5 show ?thesis by blast
qed

theorem step_counter_counts_calls_witness:
  "1 \<le> shape1 \<lparr>dim0 = 1, cols = [[5], [7], [9]]\<rparr> \<and>
   step_ct sample_closure = 7 \<and>
   map (\<lambda>e. isl (xe_result e))
     (snd (snd (snd (wrapped_call (alpa_inference_func (logged_run appending_run) sample_to_device)
                       (sample_closure, (0, [])) \<lparr>dim0 = 1, cols = [[5], [7], [9]]\<rparr>
                       None None None None))))
     = [False, False, False] \<and>
   map (\<lambda>e. sample_to_device (out_logits (projr (xe_result e))) (cl_device sample_closure))
     (snd (snd (snd (wrapped_call (alpa_inference_func (logged_run appending_run) sample_to_device)
                       (sample_closure, (0, [])) \<lparr>dim0 = 1, cols = [[5], [7], [9]]\<rparr>
                       None None None None))))
     = [Inr [2], Inr [3], Inr [4]] \<and>
   (- (2 ^ 63) \<le> pad (cl_config sample_closure) + 1 \<and>
    int (shape1 \<lparr>dim0 = 1, cols = [[5], [7], [9]]\<rparr>) + pad (cl_config sample_closure) < 2 ^ 63) \<and>
   step_ct (fst (snd (wrapped_call (alpa_inference_func appending_run sample_to_device)
                        (sample_closure, 0) \<lparr>dim0 = 1, cols = [[5], [7], [9]]\<rparr>
                        None None None None))) = 3 \<and>
   (\<exists>W cl0. get_model sample_env ''alpa/opt-125m'' ''cuda'' True ''aws'' False False = Inr W \<and>
      inference_func W = AlpaFunc cl0 \<and> step_ct cl0 = 0)"
proof -
  let ?t = "\<lparr>dim0 = 1, cols = [[5], [7], [9]]\<rparr>"
  let ?X = "snd (snd (snd (wrapped_call
        (alpa_inference_func (logged_run appending_run) sample_to_device)
        (sample_closure, (0, [])) ?t None None None None)))"
  have n: "1 \<le> shape1 ?t" by (simp add: shape1_def)
  have k: "int (shape1 ?t) = 3" by (simp add: shape1_def)
  note inst = step_counter_counts_calls [where run = appending_run and to_device = sample_to_device
      and cl = sample_closure and w = 0 and input_ids = ?t and out_attn = None
      and out_hidden = None and return_dict = None
      and E = sample_env and model_name = "''alpa/opt-125m''" and device = "''cuda''"
      and dummy = True and cluster = "''aws''" and support_output_attentions = False
      and support_output_hidden_states = False]
  from inst [THEN conjunct2, THEN conjunct2, THEN conjunct2, rule_format,
      OF get_model_alpa_sample] get_model_alpa_sample
  have g: "\<exists>W cl0. get_model sample_env ''alpa/opt-125m'' ''cuda'' True ''aws'' False False = Inr W \<and>
      inference_func W = AlpaFunc cl0 \<and> step_ct cl0 = 0"
    by blast
  from inst [THEN conjunct2, THEN conjunct2, THEN conjunct1, rule_format, OF n, THEN conjunct1]
  obtain res cl' w' xs where h:
    "wrapped_call (alpa_inference_func (logged_run appending_run) sample_to_device)
        (sample_closure, (0, [])) ?t None None None None = (res, (cl', (w', xs)))"
    "wrapped_call (alpa_inference_func appending_run sample_to_device) (sample_closure, 0) ?t
        None None None None = (res, (cl', w'))"
    "((\<forall>e \<in> set xs. \<exists>y v. xe_result e = Inr y
            \<and> sample_to_device (out_logits y) (cl_device sample_closure) = Inr v) \<and>
       - (2 ^ 63) \<le> pad (cl_config sample_closure) + 1 \<and>
       int (shape1 ?t) + pad (cl_config sample_closure) < 2 ^ 63)
      \<longleftrightarrow> (\<exists>out. res = Inr out)"
    "(\<exists>out. res = Inr out) \<longrightarrow>
       length xs = shape1 ?t \<and> cl' = sample_closure\<lparr>step_ct := int (shape1 ?t)\<rparr>"
    by (elim exE conjE) (rule that)
  from h(1) have xs: "xs = ?X" by simp
  from h(3) xs sample_episode_good sample_bounds have "\<exists>out. res = Inr out" by blast
  with h(4) have "cl' = sample_closure\<lparr>step_ct := int (shape1 ?t)\<rparr>" by blast
  with h(2) k have "step_ct (fst (snd (wrapped_call (alpa_inference_func appending_run
      sample_to_device) (sample_closure, 0) ?t None None None None))) = 3"
    by simp
  moreover have "step_ct sample_closure = 7" by (simp add: sample_closure_def)
  ultimately show ?thesis
    using n g sample_episode_results sample_episode_transfers sample_bounds
    by (intro conjI) (assumption | rule conjunct1 [OF sample_bounds] conjunct2 [OF sample_bounds])+
qed

text \<open>
  Claim C5. The position identifiers passed to the executable have the shape of the
  step's \<open>input_ids\<close> and every entry equal to the current step count (zero after a reset)
  plus \<open>config.pad + 1\<close>; a call that returns leaves the counter one higher. Over an
  episode of \<open>__call__\<close> from no cache that returns, the executable call for position \<open>i\<close>
  receives the token at position \<open>i\<close> with position identifier \<open>i + config.pad + 1\<close>, and
  the counter ends at the number of positions.
\<close>

theorem position_ids_follow_step_counter:
  "(\<exists>res ct' w' xs.
      alpa_inference_func (logged_run run) to_device (cl, (w, hist)) x past fl
        = (res, (cl\<lparr>step_ct := ct'\<rparr>, (w', hist @ xs))) \<and>
      (in_int64 ((case past of None \<Rightarrow> 0 | Some c \<Rightarrow> step_ct cl) + pad (cl_config cl) + 1) \<longrightarrow>
         (\<exists>r. xs = [\<lparr>xe_inputs =
                        \<lparr>in_input_ids = x,
                         in_position_ids =
                           filled x ((case past of None \<Rightarrow> 0 | Some c \<Rightarrow> step_ct cl)
                                       + pad (cl_config cl) + 1),
                         in_cache = (case past of None \<Rightarrow> cl_init_cache cl | Some c \<Rightarrow> c)\<rparr>,
                      xe_result = r\<rparr>])) \<and>
      (\<not> in_int64 ((case past of None \<Rightarrow> 0 | Some c \<Rightarrow> step_ct cl) + pad (cl_config cl) + 1)
         \<longrightarrow> xs = [] \<and> res = Inl OverflowError \<and>
             ct' = (case past of None \<Rightarrow> 0 | Some c \<Rightarrow> step_ct cl)) \<and>
      ((\<exists>out. res = Inr out) \<longrightarrow>
         ct' = (case past of None \<Rightarrow> 0 | Some c \<Rightarrow> step_ct cl) + 1)) \<and>
   (dim0 (filled x v) = dim0 x \<and> cols (filled x v) = map (\<lambda>c. replicate (length c) v) (cols x)) \<and>
   (1 \<le> shape1 input_ids \<longrightarrow>
      (\<exists>res cl' w' xs.
         wrapped_call (alpa_inference_func (logged_run run) to_device) (cl, (w, [])) input_ids None
             out_attn out_hidden return_dict = (res, (cl', (w', xs))) \<and>
         (((\<forall>e \<in> set xs. \<exists>y v. xe_result e = Inr y
                 \<and> to_device (out_logits y) (cl_device cl) = Inr v) \<and>
           - (2 ^ 63) \<le> pad (cl_config cl) + 1 \<and>
           int (shape1 input_ids) + pad (cl_config cl) < 2 ^ 63)
          \<longleftrightarrow> (\<exists>out. res = Inr out)) \<and>
         ((\<exists>out. res = Inr out) \<longrightarrow>
            map (\<lambda>e. in_input_ids (xe_inputs e)) xs
              = map (\<lambda>i. input_ids\<lparr>cols := [cols input_ids ! i]\<rparr>) [0 ..< shape1 input_ids] \<and>
            map (\<lambda>e. in_position_ids (xe_inputs e)) xs
              = map (\<lambda>i. filled (input_ids\<lparr>cols := [cols input_ids ! i]\<rparr>)
                             (int i + pad (cl_config cl) + 1))
                    [0 ..< shape1 input_ids] \<and>
            step_ct cl' = int (shape1 input_ids))))"
proof -
  from alpa_call_outcome [of run to_device cl w hist x past fl]
  have 1: "\<exists>res ct' w' xs.
      alpa_inference_func (logged_run run) to_device (cl, (w, hist)) x past fl
        = (res, (cl\<lparr>step_ct := ct'\<rparr>, (w', hist @ xs))) \<and>
      (in_int64 ((case past of None \<Rightarrow> 0 | Some c \<Rightarrow> step_ct cl) + pad (cl_config cl) + 1) \<longrightarrow>
         (\<exists>r. xs = [\<lparr>xe_inputs =
                        \<lparr>in_input_ids = x,
                         in_position_ids =
                           filled x ((case past of None \<Rightarrow> 0 | Some c \<Rightarrow> step_ct cl)
                                       + pad (cl_config cl) + 1),
                         in_cache = (case past of None \<Rightarrow> cl_init_cache cl | Some c \<Rightarrow> c)\<rparr>,
                      xe_result = r\<rparr>])) \<and>
      (\<not> in_int64 ((case past of None \<Rightarrow> 0 | Some c \<Rightarrow> step_ct cl) + pad (cl_config cl) + 1)
         \<longrightarrow> xs = [] \<and> res = Inl OverflowError \<and>
             ct' = (case past of None \<Rightarrow> 0 | Some c \<Rightarrow> step_ct cl)) \<and>
      ((\<exists>out. res = Inr out) \<longrightarrow>
         ct' = (case past of None \<Rightarrow> 0 | Some c \<Rightarrow> step_ct cl) + 1)"
    unfolding effective_step_raw exe_inputs_of_raw
    by (elim exE conjE) (intro exI conjI, auto)
  have 2: "\<exists>res cl' w' xs.
         wrapped_call (alpa_inference_func (logged_run run) to_device) (cl, (w, [])) input_ids None
             out_attn out_hidden return_dict = (res, (cl', (w', xs))) \<and>
         (((\<forall>e \<in> set xs. \<exists>y v. xe_result e = Inr y
                 \<and> to_device (out_logits y) (cl_device cl) = Inr v) \<and>
           - (2 ^ 63) \<le> pad (cl_config cl) + 1 \<and>
           int (shape1 input_ids) + pad (cl_config cl) < 2 ^ 63)
          \<longleftrightarrow> (\<exists>out. res = Inr out)) \<and>
         ((\<exists>out. res = Inr out) \<longrightarrow>
            map (\<lambda>e. in_input_ids (xe_inputs e)) xs
              = map (\<lambda>i. input_ids\<lparr>cols := [cols input_ids ! i]\<rparr>) [0 ..< shape1 input_ids] \<and>
            map (\<lambda>e. in_position_ids (xe_inputs e)) xs
              = map (\<lambda>i. filled (input_ids\<lparr>cols := [cols input_ids ! i]\<rparr>)
                             (int i + pad (cl_config cl) + 1))
                    [0 ..< shape1 input_ids] \<and>
            step_ct cl' = int (shape1 input_ids))"
    if n: "1 \<le> shape1 input_ids"
  proof -
    from alpa_episode_run [OF n, of run to_device cl w "[]" None out_attn out_hidden return_dict]
    obtain res cl' w' xs where h:
      "wrapped_call (alpa_inference_func (logged_run run) to_device) (cl, (w, [])) input_ids None
             out_attn out_hidden return_dict = (res, (cl', (w', xs)))"
      "((\<forall>e \<in> set xs. \<exists>y v. xe_result e = Inr y
                 \<and> to_device (out_logits y) (cl_device cl) = Inr v) \<and>
           - (2 ^ 63) \<le> 0 + pad (cl_config cl) + 1 \<and>
           0 + int (shape1 input_ids) + pad (cl_config cl) < 2 ^ 63)
          \<longleftrightarrow> (\<exists>out. res = Inr out)"
      "(\<exists>out. res = Inr out) \<longrightarrow>
         cl' = cl\<lparr>step_ct := 0 + int (shape1 input_ids)\<rparr> \<and>
         map (\<lambda>e. in_input_ids (xe_inputs e)) xs
           = map (\<lambda>i. input_ids\<lparr>cols := [cols input_ids ! i]\<rparr>) [0 ..< shape1 input_ids] \<and>
         map (\<lambda>e. in_position_ids (xe_inputs e)) xs
           = map (\<lambda>i. filled (input_ids\<lparr>cols := [cols input_ids ! i]\<rparr>)
                          (0 + int i + pad (cl_config cl) + 1))
                 [0 ..< shape1 input_ids]"
      unfolding effective_step_None append_Nil by blast
    from h(2) have e: "((\<forall>e \<in> set xs. \<exists>y v. xe_result e = Inr y
                 \<and> to_device (out_logits y) (cl_device cl) = Inr v) \<and>
           - (2 ^ 63) \<le> pad (cl_config cl) + 1 \<and>
           int (shape1 input_ids) + pad (cl_config cl) < 2 ^ 63)
          \<longleftrightarrow> (\<exists>out. res = Inr out)" by simp
    from h(3) have f: "(\<exists>out. res = Inr out) \<longrightarrow>
         map (\<lambda>e. in_input_ids (xe_inputs e)) xs
           = map (\<lambda>i. input_ids\<lparr>cols := [cols input_ids ! i]\<rparr>) [0 ..< shape1 input_ids] \<and>
         map (\<lambda>e. in_position_ids (xe_inputs e)) xs
           = map (\<lambda>i. filled (input_ids\<lparr>cols := [cols input_ids ! i]\<rparr>)
                          (int i + pad (cl_config cl) + 1))
                 [0 ..< shape1 input_ids] \<and>
         step_ct cl' = int (shape1 input_ids)" by simp
    from h(1) e f show ?thesis by blast
  qed
  from 1 2 filled_entries [of x v] show ?thesis by blast
qed

theorem position_ids_follow_step_counter_witness:
  "1 \<le> shape1 \<lparr>dim0 = 1, cols = [[5], [7], [9]]\<rparr> \<and>
   pad (cl_config sample_closure) = 1 \<and>
   map (\<lambda>e. isl (xe_result e))
     (snd (snd (snd (wrapped_call (alpa_inference_func (logged_run appending_run) sample_to_device)
                       (sample_closure, (0, [])) \<lparr>dim0 = 1, cols = [[5], [7], [9]]\<rparr>
                       None None None None))))
     = [False, False, False] \<and>
   map (\<lambda>e. sample_to_device (out_logits (projr (xe_result e))) (cl_device sample_closure))
     (snd (snd (snd (wrapped_call (alpa_inference_func (logged_run appending_run) sample_to_device)
                       (sample_closure, (0, [])) \<lparr>dim0 = 1, cols = [[5], [7], [9]]\<rparr>
                       None None None None))))
     = [Inr [2], Inr [3], Inr [4]] \<and>
   (- (2 ^ 63) \<le> pad (cl_config sample_closure) + 1 \<and>
    int (shape1 \<lparr>dim0 = 1, cols = [[5], [7], [9]]\<rparr>) + pad (cl_config sample_closure) < 2 ^ 63) \<and>
   map (\<lambda>e. in_position_ids (xe_inputs e))
     (snd (snd (snd (wrapped_call (alpa_inference_func (logged_run appending_run) sample_to_device)
                       (sample_closure, (0, [])) \<lparr>dim0 = 1, cols = [[5], [7], [9]]\<rparr>
                       None None None None))))
     = [\<lparr>dim0 = 1, cols = [[2]]\<rparr>, \<lparr>dim0 = 1, cols = [[3]]\<rparr>, \<lparr>dim0 = 1, cols = [[4]]\<rparr>]"
proof -
  let ?t = "\<lparr>dim0 = 1, cols = [[5], [7], [9]]\<rparr>"
  let ?X = "snd (snd (snd (wrapped_call
        (alpa_inference_func (logged_run appending_run) sample_to_device)
        (sample_closure, (0, [])) ?t None None None None)))"
  have n: "1 \<le> shape1 ?t" by (simp add: shape1_def)
  have p: "pad (cl_config sample_closure) = 1" by (simp add: sample_closure_def)
  from position_ids_follow_step_counter [where run = appending_run
      and to_device = sample_to_device and cl = sample_closure and w = 0 and input_ids = ?t
      and out_attn = None and out_hidden = None and return_dict = None,
      THEN conjunct2, THEN conjunct2, rule_format, OF n]
  obtain res cl' w' xs where h:
    "wrapped_call (alpa_inference_func (logged_run appending_run) sample_to_device)
        (sample_closure, (0, [])) ?t None None None None = (res, (cl', (w', xs)))"
    "((\<forall>e \<in> set xs. \<exists>y v. xe_result e = Inr y
            \<and> sample_to_device (out_logits y) (cl_device sample_closure) = Inr v) \<and>
       - (2 ^ 63) \<le> pad (cl_config sample_closure) + 1 \<and>
       int (shape1 ?t) + pad (cl_config sample_closure) < 2 ^ 63)
      \<longleftrightarrow> (\<exists>out. res = Inr out)"
    "(\<exists>out. res = Inr out) \<longrightarrow>
       map (\<lambda>e. in_input_ids (xe_inputs e)) xs
         = map (\<lambda>i. ?t\<lparr>cols := [cols ?t ! i]\<rparr>) [0 ..< shape1 ?t] \<and>
       map (\<lambda>e. in_position_ids (xe_inputs e)) xs
         = map (\<lambda>i. filled (?t\<lparr>cols := [cols ?t ! i]\<rparr>) (int i + pad (cl_config sample_closure) + 1))
               [0 ..< shape1 ?t] \<and>
       step_ct cl' = int (shape1 ?t)"
    by (elim exE conjE) (rule that)
  from h(1) have xs: "xs = ?X" by simp
  from h(2) xs sample_episode_good sample_bounds have "\<exists>out. res = Inr out" by blast
  with h(3) xs have "map (\<lambda>e. in_position_ids (xe_inputs e)) ?X
         = map (\<lambda>i. filled (?t\<lparr>cols := [cols ?t ! i]\<rparr>) (int i + pad (cl_config sample_closure) + 1))
               [0 ..< shape1 ?t]"
    by blast
  also have "\<dots> = [\<lparr>dim0 = 1, cols = [[2]]\<rparr>, \<lparr>dim0 = 1, cols = [[3]]\<rparr>, \<lparr>dim0 = 1, cols = [[4]]\<rparr>]"
    by (simp add: shape1_def p filled_def upt_rec)
  finally have m: "map (\<lambda>e. in_position_ids (xe_inputs e)) ?X
     = [\<lparr>dim0 = 1, cols = [[2]]\<rparr>, \<lparr>dim0 = 1, cols = [[3]]\<rparr>, \<lparr>dim0 = 1, cols = [[4]]\<rparr>]" .
  from n p sample_episode_results sample_episode_transfers sample_bounds m show ?thesis
    by (intro conjI) (assumption | rule conjunct1 [OF sample_bounds] conjunct2 [OF sample_bounds])+
qed

lemma alpa_none_is_fresh:
  "alpa_inference_func run to_device (cl, w) x None fl
     = alpa_inference_func run to_device (cl\<lparr>step_ct := 0\<rparr>, w) x (Some (cl_init_cache cl)) fl"
  by (simp add: alpa_inference_func_def split: prod.split sum.split)

lemma alpa_call_keeps_closure:
  "\<exists>ct' w'. snd (alpa_inference_func run to_device (cl, w) x past fl) = (cl\<lparr>step_ct := ct'\<rparr>, w')"
  using alpa_call_outcome [of run to_device cl w "[]" x past fl] by auto

lemma run_calls_keep_closure:
  "\<exists>ct' w'. run_calls (alpa_inference_func run to_device) (cl, w) calls = (cl\<lparr>step_ct := ct'\<rparr>, w')"
proof (induction calls arbitrary: cl w)
  case Nil
  have "run_calls (alpa_inference_func run to_device) (cl, w) []
          = (cl\<lparr>step_ct := step_ct cl\<rparr>, w)" by simp
  then show ?case by blast
next
  case (Cons a calls)
  obtain x past fl where a: "a = (x, past, fl)" by (cases a)
  from alpa_call_keeps_closure [of run to_device cl w x past fl]
  obtain ct1 w1 where s: "snd (alpa_inference_func run to_device (cl, w) x past fl)
      = (cl\<lparr>step_ct := ct1\<rparr>, w1)" by blast
  from Cons.IH [of "cl\<lparr>step_ct := ct1\<rparr>" w1]
  obtain ct' w' where "run_calls (alpa_inference_func run to_device) (cl\<lparr>step_ct := ct1\<rparr>, w1) calls
      = (cl\<lparr>step_ct := ct1, step_ct := ct'\<rparr>, w')" by blast
  with a s have "run_calls (alpa_inference_func run to_device) (cl, w) (a # calls)
      = (cl\<lparr>step_ct := ct'\<rparr>, w')" by simp
  then show ?case by blast
qed

lemma fresh_after_calls:
  "\<exists>cl w1.
     run_calls (alpa_inference_func run to_device) (cl0, w) calls = (cl, w1) \<and>
     cl_init_cache cl = cl_init_cache cl0 \<and>
     (\<forall>x fl. alpa_inference_func run to_device (cl, w1) x None fl
              = alpa_inference_func run to_device (cl\<lparr>step_ct := 0\<rparr>, w1) x
                  (Some (cl_init_cache cl0)) fl)"
proof -
  from run_calls_keep_closure [of run to_device cl0 w calls] obtain ct' w1 where
    r: "run_calls (alpa_inference_func run to_device) (cl0, w) calls
          = (cl0\<lparr>step_ct := ct'\<rparr>, w1)" by blast
  have i: "cl_init_cache (cl0\<lparr>step_ct := ct'\<rparr>) = cl_init_cache cl0" by simp
  have "alpa_inference_func run to_device (cl0\<lparr>step_ct := ct'\<rparr>, w1) x None fl
          = alpa_inference_func run to_device (cl0\<lparr>step_ct := ct', step_ct := 0\<rparr>, w1) x
              (Some (cl_init_cache cl0)) fl" for x fl
    using alpa_none_is_fresh [of run to_device "cl0\<lparr>step_ct := ct'\<rparr>" w1 x fl] by simp
  with r i show ?thesis by blast
qed

text \<open>
  Claim C6. Let \<open>get_model\<close> return the distributed wrapper. Its closure holds the cache
  that \<open>init_cache_dis_array\<close> built from the executable and the configuration for batch
  size 1, and no call of the inference function changes that cell. So after any sequence
  of calls, whatever they returned or raised, a call with \<open>past_key_values = None\<close> has the
  result and the final state (counter, executable state) of a call, with the counter at
  zero, that is given this fresh cache, for every executable, device transfer and input.
\<close>

theorem no_cache_equals_fresh_cache:
  assumes "get_model E model_name device dummy cluster support_output_attentions
             support_output_hidden_states = Inr W"
  shows "\<exists>cl0 fresh.
     inference_func W = AlpaFunc cl0 \<and>
     model_config W = OPTConfig (cl_config cl0) \<and>
     init_cache_dis_array E (executable W) (cl_config cl0) 1 dummy = Inr fresh \<and>
     (\<forall>run to_device (w :: 'w) calls. \<exists>cl w1.
        run_calls (alpa_inference_func run to_device) (cl0, w) calls = (cl, w1) \<and>
        cl_init_cache cl = fresh \<and>
        (\<forall>x fl. alpa_inference_func run to_device (cl, w1) x None fl
                 = alpa_inference_func run to_device (cl\<lparr>step_ct := 0\<rparr>, w1) x (Some fresh) fl))"
proof -
  from get_model_returns_alpa_closure [OF assms] obtain cl0 where c:
    "inference_func W = AlpaFunc cl0" "executable W = cl_executable cl0"
    "init_cache_dis_array E (cl_executable cl0) (cl_config cl0) 1 dummy = Inr (cl_init_cache cl0)"
    "model_config W = OPTConfig (cl_config cl0)"
    by blast
  from c(2,3) have f: "init_cache_dis_array E (executable W) (cl_config cl0) 1 dummy
                         = Inr (cl_init_cache cl0)" by simp
  show ?thesis
    by (intro exI [of _ cl0] exI [of _ "cl_init_cache cl0"] conjI allI c(1) c(4) f
          fresh_after_calls)
qed

theorem no_cache_equals_fresh_cache_witness:
  "get_model sample_env ''alpa/opt-125m'' ''cuda'' True ''aws'' False False
     = Inr \<lparr>inference_func = AlpaFunc \<lparr>cl_executable = 0, cl_params = 0, cl_init_cache = [[0]],
                      cl_config = \<lparr>pad = 1\<rparr>, cl_device = ''cuda'', step_ct = 0\<rparr>,
            config = FuncConfig InferenceFuncConfig_defaults,
            main_input_name = ''input_ids'', executable = 0, model_config = OPTConfig \<lparr>pad = 1\<rparr>\<rparr> \<and>
   (\<exists>cl w1.
      run_calls (alpa_inference_func appending_run sample_to_device)
        (\<lparr>cl_executable = 0 :: nat, cl_params = 0 :: nat, cl_init_cache = [[0]],
          cl_config = \<lparr>pad = 1\<rparr>, cl_device = ''cuda'', step_ct = 0\<rparr>, 0 :: nat)
        [(\<lparr>dim0 = 1, cols = [[5]]\<rparr>, None,
          \<lparr>output_attentions = None, output_hidden_states = None\<rparr>),
         (\<lparr>dim0 = 1, cols = [[7]]\<rparr>, Some [[0], [5]],
          \<lparr>output_attentions = None, output_hidden_states = None\<rparr>)] = (cl, w1) \<and>
      alpa_inference_func appending_run sample_to_device (cl, w1) \<lparr>dim0 = 1, cols = [[9]]\<rparr> None
          \<lparr>output_attentions = None, output_hidden_states = None\<rparr>
        = alpa_inference_func appending_run sample_to_device (cl\<lparr>step_ct := 0\<rparr>, w1)
            \<lparr>dim0 = 1, cols = [[9]]\<rparr> (Some [[0]])
            \<lparr>output_attentions = None, output_hidden_states = None\<rparr>)"
proof -
  let ?cl = "\<lparr>cl_executable = 0 :: nat, cl_params = 0 :: nat, cl_init_cache = [[0 :: int]],
              cl_config = \<lparr>pad = 1\<rparr>, cl_device = ''cuda'', step_ct = 0\<rparr>"
  let ?calls = "[(\<lparr>dim0 = 1, cols = [[5]]\<rparr>, None,
          \<lparr>output_attentions = None, output_hidden_states = None\<rparr>),
         (\<lparr>dim0 = 1, cols = [[7]]\<rparr>, Some [[0 :: int], [5]],
          \<lparr>output_attentions = None, output_hidden_states = None\<rparr>)]"
  let ?W = "\<lparr>inference_func = AlpaFunc ?cl,
            config = FuncConfig InferenceFuncConfig_defaults,
            main_input_name = ''input_ids'', executable = 0 :: nat,
            model_config = OPTConfig \<lparr>pad = 1\<rparr>\<rparr>
          :: (string, nat, nat, nat, int list, unit) WrappedInferenceFunc"
  from no_cache_equals_fresh_cache [where 'w = nat, OF get_model_alpa_sample]
  obtain cl0 fresh where h:
    "inference_func ?W = AlpaFunc cl0"
    "model_config ?W = OPTConfig (cl_config cl0)"
    "init_cache_dis_array sample_env
       (executable ?W) (cl_config cl0) 1 True = Inr fresh"
    "\<forall>(run :: (nat, nat, int list, nat) executable_run) to_device w calls. \<exists>cl w1.
        run_calls (alpa_inference_func run to_device) (cl0, w) calls = (cl, w1) \<and>
        cl_init_cache cl = fresh \<and>
        (\<forall>x fl. alpa_inference_func run to_device (cl, w1) x None fl
                 = alpa_inference_func run to_device (cl\<lparr>step_ct := 0\<rparr>, w1) x (Some fresh) fl)"
    by (elim exE conjE) (rule that; assumption)
  from h(1) have c: "cl0 = ?cl" by simp
  from h(3) have f: "fresh = [[0]]" by (simp add: sample_env_def)
  from h(4) [rule_format, of appending_run sample_to_device 0 ?calls]
  obtain cl w1 where r:
    "run_calls (alpa_inference_func appending_run sample_to_device) (cl0, 0) ?calls = (cl, w1)"
    "\<forall>x fl. alpa_inference_func appending_run sample_to_device (cl, w1) x None fl
                 = alpa_inference_func appending_run sample_to_device (cl\<lparr>step_ct := 0\<rparr>, w1) x
                     (Some fresh) fl"
    by (elim exE conjE) (rule that)
  from r(2) have e: "alpa_inference_func appending_run sample_to_device (cl, w1)
          \<lparr>dim0 = 1, cols = [[9]]\<rparr> None \<lparr>output_attentions = None, output_hidden_states = None\<rparr>
        = alpa_inference_func appending_run sample_to_device (cl\<lparr>step_ct := 0\<rparr>, w1)
            \<lparr>dim0 = 1, cols = [[9]]\<rparr> (Some fresh)
            \<lparr>output_attentions = None, output_hidden_states = None\<rparr>"
    by blast
  from r(1) [unfolded c] e [unfolded f]
  have "\<exists>cl w1.
      run_calls (alpa_inference_func appending_run sample_to_device) (?cl, 0 :: nat) ?calls
        = (cl, w1) \<and>
      alpa_inference_func appending_run sample_to_device (cl, w1) \<lparr>dim0 = 1, cols = [[9]]\<rparr> None
          \<lparr>output_attentions = None, output_hidden_states = None\<rparr>
        = alpa_inference_func appending_run sample_to_device (cl\<lparr>step_ct := 0\<rparr>, w1)
            \<lparr>dim0 = 1, cols = [[9]]\<rparr> (Some [[0]])
            \<lparr>output_attentions = None, output_hidden_states = None\<rparr>"
    by blast
  with get_model_alpa_sample show ?thesis by (intro conjI)
qed

section \<open>Properties of the benchmark arithmetic\<close>

text \<open>
  Claim C8. The reported speed is the product of the shape of \<open>generated_ids\<close> divided by
  the latency (for a latency other than zero); for the shape \<open>(1, 256)\<close> and a latency of
  2 seconds it is exactly 128.
\<close>

theorem speed_is_tokens_over_latency:
  "(latency \<noteq> 0 \<longrightarrow>
      speed generated_ids_shape latency = Some (real (prod_list generated_ids_shape) / latency)) \<and>
   np_prod [1, 256] = 256 \<and>
   speed [1, 256] 2 = Some 128"
  by (simp add: speed_def np_prod_def)

theorem speed_is_tokens_over_latency_witness:
  "(2 :: real) \<noteq> 0 \<and> speed [4, 64] 2 = Some 128"
  using speed_is_tokens_over_latency [of 2 "[4, 64]"] by simp

end
